theory Spec2Isabelle
  imports Complex_Main
begin

section \<open>Python values shared by the embedding\<close>

text \<open>
  Exceptions of the interpreter are values: a computation that may raise returns
  \<open>exn + 'a\<close>, with \<open>Inl\<close> for the exception.  Floats are idealised as reals;
  the one non-number that the source's own arithmetic can produce, the mean of an
  empty series, is kept as \<open>NaN\<close>.
\<close>

datatype exn = AttributeError | IndexError | KeyError | TypeError | ValueError
  | ZeroDivisionError | OverflowError

datatype pyfloat = Fin real | NaN

fun fadd :: "pyfloat \<Rightarrow> pyfloat \<Rightarrow> pyfloat" where
  "fadd (Fin a) (Fin b) = Fin (a + b)"
| "fadd _ _ = NaN"

section \<open>Algorithms: the strategy table\<close>

text \<open>The three values of \<open>Algorithms.algo_dict\<close>.\<close>

datatype algo = EaSimple | EaMuPlusLambda | EaMuCommaLambda

definition mu :: nat where
  "mu = 5"

definition lambda' :: nat where
  "lambda' = 8"

definition algo_dict :: "(string \<times> algo) list" where
  "algo_dict =
     [(''simple'', EaSimple), (''mu+lambda'', EaMuPlusLambda), (''mu,lambda'', EaMuCommaLambda)]"

text \<open>
  The names that the module \<open>deap.algorithms\<close> binds (its six functions and its two
  imports).  The library is a dependency of the repository; \<open>get_algorithm\<close> reads the
  attribute \<open>ea\<close> of this module.
\<close>

definition deap_algorithms_dir :: "string list" where
  "deap_algorithms_dir =
     [''random'', ''tools'', ''varAnd'', ''eaSimple'', ''varOr'', ''eaMuPlusLambda'',
      ''eaMuCommaLambda'', ''eaGenerateUpdate'']"

definition module_getattr :: "string list \<Rightarrow> string \<Rightarrow> exn + unit" where
  "module_getattr names n = (if n \<in> set names then Inr () else Inl AttributeError)"

definition key_warning :: "string \<Rightarrow> string" where
  "key_warning key =
     ''Key '' @ key @ '' not found out of available algorithm options. Using Simple Algorithm''"

text \<open>
  \<open>dict.get(key, default)\<close>; the default is itself \<open>algo_dict.get("simple")\<close>, which is
  \<open>None\<close> when that key is absent.
\<close>

definition dict_get :: "(string \<times> 'a) list \<Rightarrow> string \<Rightarrow> 'a option \<Rightarrow> 'a option" where
  "dict_get d k dflt = (case map_of d k of Some v \<Rightarrow> Some v | None \<Rightarrow> dflt)"

text \<open>
  \<open>get_algorithm\<close> over an explicit namespace of the \<open>algorithms\<close> module.  The result
  is paired with the lines printed.  For a key outside the table the source prints and
  then evaluates the expression statement \<open>algorithms.ea\<close> before reaching the
  \<open>return\<close>.
\<close>

definition get_algorithm_in :: "string list \<Rightarrow> string \<Rightarrow> (exn + algo option) \<times> string list" where
  "get_algorithm_in names key =
     (if key \<notin> set (map fst algo_dict) then
        (case module_getattr names ''ea'' of
           Inl e \<Rightarrow> (Inl e, [key_warning key])
         | Inr _ \<Rightarrow> (Inr (dict_get algo_dict key (dict_get algo_dict ''simple'' None)),
                     [key_warning key]))
      else (Inr (dict_get algo_dict key (dict_get algo_dict ''simple'' None)), []))"

definition get_algorithm :: "string \<Rightarrow> (exn + algo option) \<times> string list" where
  "get_algorithm key = get_algorithm_in deap_algorithms_dir key"

section \<open>Feature matrices\<close>

text \<open>
  A \<open>DataFrame\<close> is its ordered column labels and its rows; row \<open>i\<close> holds one cell
  per column.  \<open>X\<close> and \<open>y\<close> carry the same default index, so a \<open>Series\<close> is the list of
  its values and arithmetic between two series is positional.  The frame is an object
  that \<open>get_result\<close> mutates in place: the functions below return the frame they leave
  behind.
\<close>

record frame =
  columns :: "string list"
  rows :: "real list list"

definition wf_frame :: "frame \<Rightarrow> bool" where
  "wf_frame X = list_all (\<lambda>r. length r = length (columns X)) (rows X)"

definition col_index :: "string list \<Rightarrow> string \<Rightarrow> nat" where
  "col_index cols name = length (takeWhile (\<lambda>c. c \<noteq> name) cols)"

text \<open>\<open>X[name]\<close>: \<open>KeyError\<close> for a label that is not a column.\<close>

definition getitem :: "frame \<Rightarrow> string \<Rightarrow> exn + real list" where
  "getitem X name =
     (if name \<notin> set (columns X) then Inl KeyError
      else Inr (map (\<lambda>r. r ! col_index (columns X) name) (rows X)))"

text \<open>\<open>X[name] = vals\<close>: overwrites the column when the label exists, appends it otherwise.\<close>

definition setitem :: "frame \<Rightarrow> string \<Rightarrow> real list \<Rightarrow> frame" where
  "setitem X name vals =
     (if name \<in> set (columns X)
      then X\<lparr>rows := map2 (\<lambda>r v. map2 (\<lambda>c x. if c = name then v else x) (columns X) r)
                         (rows X) vals\<rparr>
      else X\<lparr>columns := columns X @ [name], rows := map2 (\<lambda>r v. r @ [v]) (rows X) vals\<rparr>)"

text \<open>\<open>X.drop(name, axis=1, inplace=True)\<close>: \<open>KeyError\<close> for a label that is not a column.\<close>

definition drop_col :: "frame \<Rightarrow> string \<Rightarrow> exn + frame" where
  "drop_col X name =
     (if name \<notin> set (columns X) then Inl KeyError
      else Inr \<lparr>columns = filter (\<lambda>c. c \<noteq> name) (columns X),
                rows = map (\<lambda>r. map snd (filter (\<lambda>(c, x). c \<noteq> name) (zip (columns X) r)))
                           (rows X)\<rparr>)"

section \<open>Row-wise evaluation and the error metric\<close>

text \<open>
  A compiled tree is a callable on the cells of one row; it returns a number or raises.
\<close>

type_synonym rowfun = "real list \<Rightarrow> exn + real"

text \<open>
  The inner function \<open>temp\<close> of \<open>get_result\<close>: the bare \<open>except\<close> turns every exception
  of \<open>func(*row)\<close> into the value 9999 (the traceback goes to the error stream).
\<close>

definition temp :: "rowfun \<Rightarrow> real list \<Rightarrow> real" where
  "temp func row = (case func row of Inr val \<Rightarrow> val | Inl e \<Rightarrow> 9999)"

text \<open>
  \<open>get_result\<close>: writes the column \<open>result\<close> into \<open>X\<close>, copies it out, drops it from \<open>X\<close>.
  The parameter \<open>y\<close> is unused, as in the source.
\<close>

definition get_result :: "rowfun \<Rightarrow> frame \<Rightarrow> real list \<Rightarrow> exn + (real list \<times> frame)" where
  "get_result func X y =
     (let X1 = setitem X ''result'' (map (temp func) (rows X)) in
      case getitem X1 ''result'' of
        Inl e \<Rightarrow> Inl e
      | Inr to_return \<Rightarrow>
          (case drop_col X1 ''result'' of
             Inl e \<Rightarrow> Inl e
           | Inr X2 \<Rightarrow> Inr (to_return, X2)))"

text \<open>\<open>np.mean\<close> of a series: \<open>nan\<close> when there is no value.\<close>

definition np_mean :: "real list \<Rightarrow> pyfloat" where
  "np_mean xs = (if xs = [] then NaN else Fin (sum_list xs / real (length xs)))"

text \<open>\<open>_mse\<close> (an identifier cannot start with an underscore here).\<close>

definition mse :: "rowfun \<Rightarrow> frame \<Rightarrow> real list \<Rightarrow> exn + (pyfloat \<times> frame)" where
  "mse func X y =
     (case get_result func X y of
        Inl e \<Rightarrow> Inl e
      | Inr (preds, X') \<Rightarrow>
          (let diff = map2 (\<lambda>p t. p - t) preds y in
           Inr (np_mean (map (\<lambda>d. d ^ 2) diff), X')))"

section \<open>Expression trees and individuals\<close>

text \<open>
  Modelled from the spec: \<open>gp.PrimitiveTree\<close> and its attribute \<open>height\<close> are library
  code.  A tree is a terminal (an argument slot of the row) or a primitive applied to
  subtrees.  \<open>height\<close> is the attribute the height guards read: 0 for a terminal, one
  more than the highest child for a primitive.
\<close>

datatype tree = Terminal nat | Prim string "tree list"

fun height :: "tree \<Rightarrow> nat" where
  "height (Terminal i) = 0"
| "height (Prim f ts) = Suc (foldr max (map height ts) 0)"

text \<open>The primitive set: the number of argument slots and the primitives with their arity.\<close>

record pset =
  arity :: nat
  primitives :: "(string \<times> nat) list"

text \<open>An individual: its tree and its fitness values, \<open>None\<close> while not evaluated.\<close>

record individual =
  tree :: tree
  fitness :: "pyfloat list option"

record hall_of_fame =
  maxsize :: nat
  items :: "individual list"

definition HallOfFame :: "nat \<Rightarrow> hall_of_fame" where
  "HallOfFame n = \<lparr>maxsize = n, items = []\<rparr>"

section \<open>The learner object\<close>

text \<open>
  What \<open>toolbox.evaluate\<close> is bound to: the fixed data of \<open>reg_eval\<close>, or the generator
  of \<open>reg_gen_eval\<close>.  A generator is called with \<open>no_samples\<close> or with no argument; its
  random draws are fixed, so it is a function.
\<close>

datatype evaluator = EvalData frame "real list" | EvalGen "nat option \<Rightarrow> frame \<times> real list"

text \<open>
  The toolbox: each registration with the parameters it was bound to, \<open>None\<close> while
  unregistered.  \<open>tb_mutate\<close> and \<open>tb_mate\<close> hold the \<open>max_value\<close> of their
  \<open>staticLimit\<close> decorator.
\<close>

record toolbox =
  tb_expr :: "(pset \<times> nat \<times> nat) option"
  tb_individual :: "(pset \<times> nat \<times> nat) option"
  tb_population :: "(pset \<times> nat \<times> nat) option"
  tb_select :: "nat option"
  tb_expr_mut :: "(nat \<times> nat) option"
  tb_mutate :: "nat option"
  tb_mate :: "nat option"
  tb_evaluate :: "evaluator option"

definition Toolbox :: toolbox where
  "Toolbox = \<lparr>tb_expr = None, tb_individual = None, tb_population = None, tb_select = None,
              tb_expr_mut = None, tb_mutate = None, tb_mate = None, tb_evaluate = None\<rparr>"

text \<open>
  The attributes of a \<open>DEAPLearningSystem\<close> other than the penalty callable.
  \<open>Fitness\<close> (the weights of the fitness class), \<open>pset\<close>, \<open>hof\<close> and \<open>func\<close> do not
  exist until they are first assigned.
\<close>

record attrs =
  toolbox :: toolbox
  path :: string
  verbose :: bool
  population_size :: nat
  crossover_prob :: real
  mutation_prob :: real
  ngens :: nat
  algorithm :: string
  func_list :: "string list"
  Fitness :: "real list option"
  pset :: "pset option"
  hof :: "hall_of_fame option"
  func :: "rowfun option"

text \<open>
  The auxiliary penalty.  The source calls \<open>self.add_func(self, X, y)\<close>: the callable
  receives the learner and may read any attribute of it.  A record cannot hold a
  function of its own type, so the callable is given all attributes of the learner
  except the callable itself.
\<close>

type_synonym penalty = "attrs \<Rightarrow> frame \<Rightarrow> real list \<Rightarrow> exn + pyfloat"

text \<open>
  The learner: its attributes, the penalty \<open>add_func\<close>, and \<open>stdout\<close>, which is no
  attribute but collects what the methods print.
\<close>

record dls = attrs +
  add_func :: penalty
  stdout :: "string list"

text \<open>The argument \<open>self\<close> of the penalty.\<close>

definition self_view :: "dls \<Rightarrow> attrs" where
  "self_view s =
     \<lparr>toolbox = toolbox s, path = path s, verbose = verbose s,
      population_size = population_size s, crossover_prob = crossover_prob s,
      mutation_prob = mutation_prob s, ngens = ngens s, algorithm = algorithm s,
      func_list = func_list s, Fitness = Fitness s, pset = pset s, hof = hof s,
      func = func s\<rparr>"

text \<open>\<open>__init__\<close> with its default arguments.\<close>

definition init :: "string \<Rightarrow> bool \<Rightarrow> nat \<Rightarrow> real \<Rightarrow> real \<Rightarrow> nat \<Rightarrow> string \<Rightarrow> string list \<Rightarrow> dls" where
  "init path0 verbose0 population_size0 crossover_prob0 mutation_prob0 ngens0 algorithm0 func_list0 =
     \<lparr>toolbox = Toolbox, path = path0, verbose = verbose0, population_size = population_size0,
      crossover_prob = crossover_prob0, mutation_prob = mutation_prob0, ngens = ngens0,
      algorithm = algorithm0, func_list = func_list0,
      Fitness = None, pset = None, hof = None, func = None,
      add_func = (\<lambda>dls X y. Inr (Fin 0)), stdout = []\<rparr>"

definition init_default :: dls where
  "init_default =
     init ''DEAP_data'' False 100 (4 / 10) (4 / 10) 30 ''simple''
       [''add'', ''mul'', ''sub'', ''div'', ''sin'', ''cos'', ''tan'', ''exp'', ''sqrt'']"

definition set_add_func :: "dls \<Rightarrow> penalty \<Rightarrow> dls" where
  "set_add_func s f = s\<lparr>add_func := f\<rparr>"

definition set_algorithm :: "dls \<Rightarrow> string \<Rightarrow> dls" where
  "set_algorithm s a = s\<lparr>algorithm := a\<rparr>"

definition set_func_list :: "dls \<Rightarrow> string list \<Rightarrow> dls" where
  "set_func_list s fl = s\<lparr>func_list := fl\<rparr>"

definition print :: "string \<Rightarrow> dls \<Rightarrow> dls" where
  "print line s = s\<lparr>stdout := stdout s @ [line]\<rparr>"

text \<open>
  The collaborators that are not part of the learner: \<open>gp.compile\<close>, the table
  \<open>func_dict\<close> of \<open>Customization\<close> (each name with the number of parameters of its
  callable), and the random operators of the library with their draws fixed:
  \<open>toolbox.population(n)\<close> from the bound generator; \<open>breed\<close>, the selection and
  variation that make the offspring of one generation (from the strategy, the two
  probabilities, the tournament size, the generation, the population and the number of
  offspring), whose changed individuals come without fitness; and \<open>select\<close>, the
  registered selection (from the tournament size, the generation, the candidates and
  the number to choose); the undecorated operators \<open>gp.cxOnePoint\<close> and
  \<open>gp.mutUniform\<close>; and the draws of \<open>random.choice\<close>.
\<close>

record deap =
  compile :: "tree \<Rightarrow> pset \<Rightarrow> rowfun"
  func_dict :: "(string \<times> nat) list"
  population :: "pset \<times> nat \<times> nat \<Rightarrow> nat \<Rightarrow> tree list"
  breed :: "algo \<Rightarrow> real \<Rightarrow> real \<Rightarrow> nat \<Rightarrow> nat \<Rightarrow> individual list \<Rightarrow> nat \<Rightarrow> individual list"
  select :: "nat \<Rightarrow> nat \<Rightarrow> individual list \<Rightarrow> nat \<Rightarrow> individual list"
  cxOnePoint :: "tree \<Rightarrow> tree \<Rightarrow> tree \<times> tree"
  mutUniform :: "tree \<Rightarrow> tree"
  choice :: "nat \<Rightarrow> nat"

text \<open>
  A method either returns or raises, and leaves the learner in some state in both cases.
\<close>

type_synonym 'a outcome = "(exn + 'a) \<times> dls"

definition andthen :: "(dls \<Rightarrow> unit outcome) \<Rightarrow> (dls \<Rightarrow> 'a outcome) \<Rightarrow> dls \<Rightarrow> 'a outcome" where
  "andthen m k s = (case m s of (Inl e, s') \<Rightarrow> (Inl e, s') | (Inr u, s') \<Rightarrow> k s')"

section \<open>The builder methods\<close>

definition create_fitness :: "dls \<Rightarrow> unit outcome" where
  "create_fitness s = (Inr (), s\<lparr>Fitness := Some [- 1]\<rparr>)"

text \<open>
  The loop of \<open>create_and_reg_individual\<close> over \<open>func_list\<close>: \<open>func_dict[func]\<close> raises
  \<open>KeyError\<close> for an unknown name, with the primitives added so far left in the set.
\<close>

fun add_primitives :: "(string \<times> nat) list \<Rightarrow> string list \<Rightarrow> pset \<Rightarrow> exn option \<times> pset" where
  "add_primitives fd [] p = (None, p)"
| "add_primitives fd (name # names) p =
     (case map_of fd name of
        None \<Rightarrow> (Some KeyError, p)
      | Some n \<Rightarrow> add_primitives fd names (p\<lparr>primitives := primitives p @ [(name, n)]\<rparr>))"

definition create_and_reg_individual :: "deap \<Rightarrow> nat \<Rightarrow> dls \<Rightarrow> unit outcome" where
  "create_and_reg_individual lib problem_arity s =
     (case add_primitives (func_dict lib) (func_list s) \<lparr>arity = problem_arity, primitives = []\<rparr> of
        (Some e, p) \<Rightarrow> (Inl e, s\<lparr>pset := Some p\<rparr>)
      | (None, p) \<Rightarrow>
          (case Fitness s of
             None \<Rightarrow> (Inl AttributeError, s\<lparr>pset := Some p\<rparr>)
           | Some w \<Rightarrow>
               (Inr (), s\<lparr>pset := Some p,
                          toolbox := (toolbox s)\<lparr>tb_expr := Some (p, 1, 2),
                                                 tb_individual := Some (p, 1, 2)\<rparr>\<rparr>)))"

definition create_and_reg_population :: "dls \<Rightarrow> unit outcome" where
  "create_and_reg_population s =
     (case tb_individual (toolbox s) of
        None \<Rightarrow> (Inl AttributeError, s)
      | Some ex \<Rightarrow> (Inr (), s\<lparr>toolbox := (toolbox s)\<lparr>tb_population := Some ex\<rparr>\<rparr>))"

definition reg_selection :: "nat \<Rightarrow> dls \<Rightarrow> unit outcome" where
  "reg_selection tournsize s = (Inr (), s\<lparr>toolbox := (toolbox s)\<lparr>tb_select := Some tournsize\<rparr>\<rparr>)"

definition reg_mutation :: "dls \<Rightarrow> unit outcome" where
  "reg_mutation s =
     (let s1 = s\<lparr>toolbox := (toolbox s)\<lparr>tb_expr_mut := Some (0, 2)\<rparr>\<rparr> in
      case pset s1 of
        None \<Rightarrow> (Inl AttributeError, s1)
      | Some p \<Rightarrow> (Inr (), s1\<lparr>toolbox := (toolbox s1)\<lparr>tb_mutate := Some 17\<rparr>\<rparr>))"

definition reg_mating :: "dls \<Rightarrow> unit outcome" where
  "reg_mating s = (Inr (), s\<lparr>toolbox := (toolbox s)\<lparr>tb_mate := Some 17\<rparr>\<rparr>)"

definition reg_eval :: "frame \<Rightarrow> real list \<Rightarrow> dls \<Rightarrow> unit outcome" where
  "reg_eval X y s = (Inr (), s\<lparr>toolbox := (toolbox s)\<lparr>tb_evaluate := Some (EvalData X y)\<rparr>\<rparr>)"

definition reg_gen_eval :: "(nat option \<Rightarrow> frame \<times> real list) \<Rightarrow> dls \<Rightarrow> unit outcome" where
  "reg_gen_eval generator s =
     (Inr (), s\<lparr>toolbox := (toolbox s)\<lparr>tb_evaluate := Some (EvalGen generator)\<rparr>\<rparr>)"

definition get_arity_from_X :: "frame \<Rightarrow> nat" where
  "get_arity_from_X X = length (columns X)"

definition invariant_build_model :: "deap \<Rightarrow> nat \<Rightarrow> nat \<Rightarrow> dls \<Rightarrow> unit outcome" where
  "invariant_build_model lib problem_arity tournsize =
     andthen create_fitness
       (andthen (create_and_reg_individual lib problem_arity)
          (andthen create_and_reg_population
             (andthen (reg_selection tournsize)
                (andthen reg_mutation reg_mating))))"

definition build_model :: "deap \<Rightarrow> frame \<Rightarrow> real list \<Rightarrow> nat \<Rightarrow> dls \<Rightarrow> unit outcome" where
  "build_model lib X y tournsize =
     andthen (invariant_build_model lib (get_arity_from_X X) tournsize) (reg_eval X y)"

definition build_gen_model :: "deap \<Rightarrow> (nat option \<Rightarrow> frame \<times> real list) \<Rightarrow> nat \<Rightarrow> dls \<Rightarrow> unit outcome" where
  "build_gen_model lib generator tournsize =
     (case generator (Some 1) of
        (smallx, smally) \<Rightarrow>
          andthen (invariant_build_model lib (get_arity_from_X smallx) tournsize)
            (reg_gen_eval generator))"

text \<open>
  \<open>reset\<close>: a new toolbox, then the three \<open>del\<close> statements inside one \<open>try\<close>; the first
  attribute that does not exist ends the block and prints.
\<close>

definition reset :: "dls \<Rightarrow> dls" where
  "reset s =
     (let s0 = s\<lparr>toolbox := Toolbox\<rparr> in
      case Fitness s0 of
        None \<Rightarrow> print ''Already Reset'' s0
      | Some w \<Rightarrow>
          (let s1 = s0\<lparr>Fitness := None\<rparr> in
           case pset s1 of
             None \<Rightarrow> print ''Already Reset'' s1
           | Some p \<Rightarrow>
               (let s2 = s1\<lparr>pset := None\<rparr> in
                case hof s2 of
                  None \<Rightarrow> print ''Already Reset'' s2
                | Some h \<Rightarrow> s2\<lparr>hof := None\<rparr>)))"

section \<open>Fitness evaluation\<close>

text \<open>
  \<open>eval_helper\<close> and \<open>ind_score\<close>.  Both store the compiled function in \<open>self.func\<close>
  before anything else; the frame they leave behind is returned beside the state.
\<close>

definition eval_helper :: "deap \<Rightarrow> dls \<Rightarrow> tree \<Rightarrow> frame \<Rightarrow> real list \<Rightarrow> pyfloat list outcome \<times> frame" where
  "eval_helper lib s ind X y =
     (case pset s of
        None \<Rightarrow> ((Inl AttributeError, s), X)
      | Some p \<Rightarrow>
          (let f = compile lib ind p; s1 = s\<lparr>func := Some f\<rparr> in
           case mse f X y of
             Inl e \<Rightarrow> ((Inl e, s1), X)
           | Inr (m, X') \<Rightarrow>
               (case add_func s1 (self_view s1) X' y of
                  Inl e \<Rightarrow> ((Inl e, s1), X')
                | Inr a \<Rightarrow> ((Inr [fadd m a], s1), X'))))"

definition ind_score :: "deap \<Rightarrow> dls \<Rightarrow> tree \<Rightarrow> frame \<Rightarrow> real list \<Rightarrow> (pyfloat \<times> pyfloat) outcome \<times> frame" where
  "ind_score lib s ind X y =
     (case pset s of
        None \<Rightarrow> ((Inl AttributeError, s), X)
      | Some p \<Rightarrow>
          (let f = compile lib ind p; s1 = s\<lparr>func := Some f\<rparr> in
           case mse f X y of
             Inl e \<Rightarrow> ((Inl e, s1), X)
           | Inr (m, X') \<Rightarrow>
               (case add_func s1 (self_view s1) X' y of
                  Inl e \<Rightarrow> ((Inl e, s1), X')
                | Inr violation \<Rightarrow> ((Inr (m, violation), s1), X'))))"

text \<open>
  \<open>score\<close> returns the pair of \<open>ind_score\<close> or, from its bare \<open>except\<close>, the integer 0:
  two different kinds of Python value.
\<close>

datatype score_result = ScorePair pyfloat pyfloat | ScoreInt int

definition score :: "deap \<Rightarrow> dls \<Rightarrow> frame \<Rightarrow> real list \<Rightarrow> (score_result \<times> dls) \<times> frame" where
  "score lib s X y =
     (case hof s of
        None \<Rightarrow> ((ScoreInt 0, print ''Could not find Best model'' s), X)
      | Some h \<Rightarrow>
          (case items h of
             [] \<Rightarrow> ((ScoreInt 0, print ''Could not find Best model'' s), X)
           | best # rest \<Rightarrow>
               (case ind_score lib s (tree best) X y of
                  ((Inl e, s'), X') \<Rightarrow> ((ScoreInt 0, print ''Could not find Best model'' s'), X')
                | ((Inr (m, v), s'), X') \<Rightarrow> ((ScorePair m v, s'), X'))))"

section \<open>The hall of fame and the generational loop\<close>

text \<open>
  Modelled from the spec: \<open>tools.HallOfFame\<close> and the three strategies of
  \<open>deap.algorithms\<close> are library code that \<open>train\<close> calls.  The hall of fame is
  bounded by its capacity and holds the best-fitness individuals seen, best first; it is
  updated after every generation's evaluation.  Fitness has one objective with weight
  \<open>-1\<close>: the smaller value is the better one, and no comparison with \<open>NaN\<close> holds.
\<close>

fun fit_lt :: "pyfloat \<Rightarrow> pyfloat \<Rightarrow> bool" where
  "fit_lt (Fin a) (Fin b) = (a < b)"
| "fit_lt _ _ = False"

definition better :: "individual \<Rightarrow> individual \<Rightarrow> bool" where
  "better i j =
     (case (fitness i, fitness j) of
        (Some [a], Some [b]) \<Rightarrow> fit_lt a b
      | _ \<Rightarrow> False)"

fun insert_best :: "individual \<Rightarrow> individual list \<Rightarrow> individual list" where
  "insert_best i [] = [i]"
| "insert_best i (j # js) = (if better i j then i # j # js else j # insert_best i js)"

definition hall_insert :: "hall_of_fame \<Rightarrow> individual \<Rightarrow> hall_of_fame" where
  "hall_insert h i = h\<lparr>items := take (maxsize h) (insert_best i (items h))\<rparr>"

definition hall_update :: "hall_of_fame \<Rightarrow> individual list \<Rightarrow> hall_of_fame" where
  "hall_update h pop = foldl hall_insert h pop"

text \<open>
  Modelled from the spec: \<open>halloffame.update(population)\<close> of the library, applied to
  the object that \<open>self.hof\<close> refers to.
\<close>

definition update_halloffame :: "individual list \<Rightarrow> dls \<Rightarrow> dls" where
  "update_halloffame pop s = s\<lparr>hof := map_option (\<lambda>h. hall_update h pop) (hof s)\<rparr>"

text \<open>
  \<open>toolbox.evaluate(ind)\<close>: \<open>eval_helper\<close> on the bound data, whose frame is the object
  that stays bound, or on a fresh sample of the generator.
\<close>

definition toolbox_evaluate :: "deap \<Rightarrow> tree \<Rightarrow> dls \<Rightarrow> pyfloat list outcome" where
  "toolbox_evaluate lib ind s =
     (case tb_evaluate (toolbox s) of
        None \<Rightarrow> (Inl AttributeError, s)
      | Some (EvalData X y) \<Rightarrow>
          (case eval_helper lib s ind X y of
             ((r, s'), X') \<Rightarrow>
               (r, s'\<lparr>toolbox := (toolbox s')\<lparr>tb_evaluate := Some (EvalData X' y)\<rparr>\<rparr>))
      | Some (EvalGen gen) \<Rightarrow>
          (case gen None of (X, y) \<Rightarrow> fst (eval_helper lib s ind X y)))"

text \<open>
  Modelled from the spec: the evaluation step of the library's strategies.  Every
  individual without a valid fitness is evaluated, in order.
\<close>

fun evaluate_invalid :: "deap \<Rightarrow> individual list \<Rightarrow> dls \<Rightarrow> individual list outcome" where
  "evaluate_invalid lib [] s = (Inr [], s)"
| "evaluate_invalid lib (i # is) s =
     (case fitness i of
        Some v \<Rightarrow>
          (case evaluate_invalid lib is s of
             (Inl e, s') \<Rightarrow> (Inl e, s')
           | (Inr js, s') \<Rightarrow> (Inr (i # js), s'))
      | None \<Rightarrow>
          (case toolbox_evaluate lib (tree i) s of
             (Inl e, s1) \<Rightarrow> (Inl e, s1)
           | (Inr v, s1) \<Rightarrow>
               (case evaluate_invalid lib is s1 of
                  (Inl e, s') \<Rightarrow> (Inl e, s')
                | (Inr js, s') \<Rightarrow> (Inr (i\<lparr>fitness := Some v\<rparr> # js), s'))))"

definition nevals :: "individual list \<Rightarrow> nat" where
  "nevals pop = length (filter (\<lambda>i. fitness i = None) pop)"

text \<open>
  Modelled from the spec: the replacement step of the library's strategies.  The next
  population is the offspring wholesale, or \<open>mu\<close> individuals selected from parents and
  offspring, or from the offspring only.
\<close>

definition next_population :: "deap \<Rightarrow> algo \<Rightarrow> nat \<Rightarrow> nat \<Rightarrow> individual list \<Rightarrow> individual list \<Rightarrow> individual list" where
  "next_population lib alg tournsize g pop offspring =
     (case alg of
        EaSimple \<Rightarrow> offspring
      | EaMuPlusLambda \<Rightarrow> select lib tournsize g (pop @ offspring) mu
      | EaMuCommaLambda \<Rightarrow> select lib tournsize g offspring mu)"

definition offspring_size :: "algo \<Rightarrow> individual list \<Rightarrow> nat" where
  "offspring_size alg pop = (case alg of EaSimple \<Rightarrow> length pop | _ \<Rightarrow> lambda')"

type_synonym logbook = "(nat \<times> nat) list"

text \<open>
  Modelled from the spec: the generational loop of \<open>eaSimple\<close>, \<open>eaMuPlusLambda\<close> and
  \<open>eaMuCommaLambda\<close>, library code.  The generations \<open>g, g + 1, \<dots>\<close>: breed, evaluate
  the offspring, update the hall of fame, replace, record \<open>(gen, nevals)\<close>.  Breeding
  needs the registered selection and the guarded operators.
\<close>

fun ea_gens :: "deap \<Rightarrow> algo \<Rightarrow> nat \<Rightarrow> nat \<Rightarrow> individual list \<Rightarrow> logbook \<Rightarrow> dls \<Rightarrow> (individual list \<times> logbook) outcome" where
  "ea_gens lib alg 0 g pop logbook s = (Inr (pop, logbook), s)"
| "ea_gens lib alg (Suc n) g pop logbook s =
     (case tb_select (toolbox s) of
        None \<Rightarrow> (Inl AttributeError, s)
      | Some tournsize \<Rightarrow>
          (if tb_mate (toolbox s) = None \<or> tb_mutate (toolbox s) = None
           then (Inl AttributeError, s)
           else
             (let offspring =
                    breed lib alg (crossover_prob s) (mutation_prob s) tournsize g pop
                      (offspring_size alg pop)
              in case evaluate_invalid lib offspring s of
                   (Inl e, s1) \<Rightarrow> (Inl e, s1)
                 | (Inr evaluated, s1) \<Rightarrow>
                     ea_gens lib alg n (Suc g)
                       (next_population lib alg tournsize g pop evaluated)
                       (logbook @ [(g, nevals offspring)])
                       (update_halloffame evaluated s1))))"

text \<open>
  Modelled from the spec: the whole run of a strategy, library code.  The initial
  population is evaluated and shown to the hall of fame first.
\<close>

definition ea :: "deap \<Rightarrow> algo \<Rightarrow> individual list \<Rightarrow> dls \<Rightarrow> (individual list \<times> logbook) outcome" where
  "ea lib alg pop0 s =
     (case evaluate_invalid lib pop0 s of
        (Inl e, s1) \<Rightarrow> (Inl e, s1)
      | (Inr pop, s1) \<Rightarrow>
          ea_gens lib alg (ngens s1) 1 pop [(0, nevals pop0)] (update_halloffame pop s1))"

section \<open>Training and the result interface\<close>

text \<open>
  \<open>train\<close>: the hall of fame is replaced first; then the callee expression
  \<open>Algorithms.get_algorithm(self.algorithm)\<close> is evaluated, then the argument
  \<open>self.toolbox.population(self.population_size)\<close>, then the strategy is called.
\<close>

definition train :: "deap \<Rightarrow> dls \<Rightarrow> (individual list \<times> logbook) outcome" where
  "train lib s =
     (let s1 = s\<lparr>hof := Some (HallOfFame 1)\<rparr> in
      case get_algorithm (algorithm s1) of
        (r, out) \<Rightarrow>
          (let s2 = s1\<lparr>stdout := stdout s1 @ out\<rparr> in
           case r of
             Inl e \<Rightarrow> (Inl e, s2)
           | Inr a \<Rightarrow>
               (case tb_population (toolbox s2) of
                  None \<Rightarrow> (Inl AttributeError, s2)
                | Some ex \<Rightarrow>
                    (case a of
                       None \<Rightarrow> (Inl TypeError, s2)
                     | Some alg \<Rightarrow>
                         ea lib alg
                           (map (\<lambda>t. \<lparr>tree = t, fitness = None\<rparr>)
                              (population lib ex (population_size s2)))
                           s2))))"

definition fit :: "deap \<Rightarrow> frame \<Rightarrow> real list \<Rightarrow> dls \<Rightarrow> (individual list \<times> logbook) outcome" where
  "fit lib X y s =
     (case build_model lib X y 3 (reset s) of
        (Inl e, s') \<Rightarrow> (Inl e, s')
      | (Inr u, s') \<Rightarrow> train lib s')"

definition fit_gen :: "deap \<Rightarrow> (nat option \<Rightarrow> frame \<times> real list) \<Rightarrow> dls \<Rightarrow> (individual list \<times> logbook) outcome" where
  "fit_gen lib gen s =
     (case build_gen_model lib gen 3 (reset s) of
        (Inl e, s') \<Rightarrow> (Inl e, s')
      | (Inr u, s') \<Rightarrow> train lib s')"

text \<open>
  The individuals that a run shows to the hall of fame, in order: the evaluated initial
  population, then the evaluated offspring of each generation.  These functions follow
  \<open>ea_gens\<close>, \<open>ea\<close> and \<open>train\<close> step by step and collect the arguments of
  \<open>update_halloffame\<close>.
\<close>

fun gens_seen :: "deap \<Rightarrow> algo \<Rightarrow> nat \<Rightarrow> nat \<Rightarrow> individual list \<Rightarrow> dls \<Rightarrow> individual list" where
  "gens_seen lib alg 0 g pop s = []"
| "gens_seen lib alg (Suc n) g pop s =
     (case tb_select (toolbox s) of
        None \<Rightarrow> []
      | Some tournsize \<Rightarrow>
          (if tb_mate (toolbox s) = None \<or> tb_mutate (toolbox s) = None
           then []
           else
             (let offspring =
                    breed lib alg (crossover_prob s) (mutation_prob s) tournsize g pop
                      (offspring_size alg pop)
              in case evaluate_invalid lib offspring s of
                   (Inl e, s1) \<Rightarrow> []
                 | (Inr evaluated, s1) \<Rightarrow>
                     evaluated @
                     gens_seen lib alg n (Suc g)
                       (next_population lib alg tournsize g pop evaluated)
                       (update_halloffame evaluated s1))))"

definition ea_seen :: "deap \<Rightarrow> algo \<Rightarrow> individual list \<Rightarrow> dls \<Rightarrow> individual list" where
  "ea_seen lib alg pop0 s =
     (case evaluate_invalid lib pop0 s of
        (Inl e, s1) \<Rightarrow> []
      | (Inr pop, s1) \<Rightarrow> pop @ gens_seen lib alg (ngens s1) 1 pop (update_halloffame pop s1))"

definition train_seen :: "deap \<Rightarrow> dls \<Rightarrow> individual list" where
  "train_seen lib s =
     (case get_algorithm (algorithm s) of
        (Inr (Some alg), out) \<Rightarrow>
          (case tb_population (toolbox s) of
             None \<Rightarrow> []
           | Some ex \<Rightarrow>
               ea_seen lib alg
                 (map (\<lambda>t. \<lparr>tree = t, fitness = None\<rparr>)
                    (population lib ex (population_size s)))
                 (s\<lparr>hof := Some (HallOfFame 1), stdout := stdout s @ out\<rparr>))
      | _ \<Rightarrow> [])"

text \<open>
  Individuals are objects.  A reference is a slot of the learner's hall of fame or an
  object that the caller owns; \<open>assign_tree\<close> is the in-place replacement of the nodes
  of the object referred to.
\<close>

datatype ref = HofItem nat | Local nat

record world =
  learner :: dls
  locals :: "individual list"

fun deref :: "world \<Rightarrow> ref \<Rightarrow> individual option" where
  "deref w (HofItem i) =
     (case hof (learner w) of
        None \<Rightarrow> None
      | Some h \<Rightarrow> (if i < length (items h) then Some (items h ! i) else None))"
| "deref w (Local k) = (if k < length (locals w) then Some (locals w ! k) else None)"

fun assign_tree :: "world \<Rightarrow> ref \<Rightarrow> tree \<Rightarrow> world" where
  "assign_tree w (HofItem i) t =
     w\<lparr>learner := (learner w)\<lparr>hof :=
          map_option (\<lambda>h. h\<lparr>items := (items h)[i := (items h ! i)\<lparr>tree := t\<rparr>]\<rparr>)
            (hof (learner w))\<rparr>\<rparr>"
| "assign_tree w (Local k) t = w\<lparr>locals := (locals w)[k := (locals w ! k)\<lparr>tree := t\<rparr>]\<rparr>"

text \<open>
  \<open>get_predicted_equation\<close>: \<open>self.hof\<close> raises \<open>AttributeError\<close> before the first
  \<open>train\<close>, \<open>self.hof[0]\<close> raises \<open>IndexError\<close> on an empty hall of fame, and
  \<open>toolbox.clone\<close> (a deep copy, registered by every new toolbox) makes a new object.
\<close>

definition get_predicted_equation :: "world \<Rightarrow> (exn + ref) \<times> world" where
  "get_predicted_equation w =
     (case hof (learner w) of
        None \<Rightarrow> (Inl AttributeError, w)
      | Some h \<Rightarrow>
          (case items h of
             [] \<Rightarrow> (Inl IndexError, w)
           | best # rest \<Rightarrow> (Inr (Local (length (locals w))), w\<lparr>locals := locals w @ [best]\<rparr>)))"

section \<open>The guarded operators\<close>

text \<open>
  Modelled from the spec: \<open>gp.staticLimit\<close> is library code that \<open>reg_mutation\<close> and
  \<open>reg_mating\<close> apply as a decorator.  The guard keeps the parents, runs the operator,
  and replaces every offspring whose key exceeds \<open>max_value\<close> by one of the parents
  (the draw for the offspring at position \<open>i\<close> is \<open>pick i\<close>).
\<close>

definition staticLimit :: "(tree \<Rightarrow> nat) \<Rightarrow> nat \<Rightarrow> (nat \<Rightarrow> nat) \<Rightarrow> (tree list \<Rightarrow> tree list) \<Rightarrow> tree list \<Rightarrow> exn + tree list" where
  "staticLimit key max_value pick operator args =
     (let keep_inds = args; new_inds = operator args in
      if keep_inds = [] \<and> list_ex (\<lambda>ind. key ind > max_value) new_inds then Inl IndexError
      else Inr (map (\<lambda>(i, ind). if key ind > max_value
                                then keep_inds ! (pick i mod length keep_inds) else ind)
                  (enumerate 0 new_inds)))"

text \<open>\<open>toolbox.mate\<close> and \<open>toolbox.mutate\<close> as registered and decorated by the learner.\<close>

definition toolbox_mate :: "deap \<Rightarrow> dls \<Rightarrow> tree \<Rightarrow> tree \<Rightarrow> exn + tree list" where
  "toolbox_mate lib s ind1 ind2 =
     (case tb_mate (toolbox s) of
        None \<Rightarrow> Inl AttributeError
      | Some max_value \<Rightarrow>
          staticLimit height max_value (choice lib)
            (\<lambda>args. case cxOnePoint lib (args ! 0) (args ! 1) of (a, b) \<Rightarrow> [a, b])
            [ind1, ind2])"

definition toolbox_mutate :: "deap \<Rightarrow> dls \<Rightarrow> tree \<Rightarrow> exn + tree list" where
  "toolbox_mutate lib s ind =
     (case tb_mutate (toolbox s) of
        None \<Rightarrow> Inl AttributeError
      | Some max_value \<Rightarrow>
          staticLimit height max_value (choice lib) (\<lambda>args. [mutUniform lib (args ! 0)]) [ind])"

section \<open>Sample data\<close>

text \<open>
  A root-like row function of one argument: it raises \<open>ValueError\<close> on a negative cell
  and \<open>TypeError\<close> when called with a number of cells other than one.
\<close>

definition root_fun :: rowfun where
  "root_fun row =
     (case row of
        [a] \<Rightarrow> (if a < 0 then Inl ValueError else Inr (sqrt a))
      | _ \<Rightarrow> Inl TypeError)"

definition X_plain :: frame where
  "X_plain = \<lparr>columns = [''x''], rows = [[4], [-1]]\<rparr>"

definition y_plain :: "real list" where
  "y_plain = [2, 1]"

text \<open>A frame that already has a column labelled \<open>result\<close>.\<close>

definition X_taken :: frame where
  "X_taken = \<lparr>columns = [''x'', ''result''], rows = [[4, 7], [-1, 8]]\<rparr>"

text \<open>A chain of \<open>n\<close> unary primitives over one argument, and the growth of its leaf.\<close>

fun chain :: "nat \<Rightarrow> tree" where
  "chain 0 = Terminal 0"
| "chain (Suc n) = Prim ''sin'' [chain n]"

fun grow_leaf :: "tree \<Rightarrow> tree" where
  "grow_leaf (Terminal i) = Prim ''sin'' [Terminal i]"
| "grow_leaf (Prim f ts) = Prim f (map grow_leaf ts)"

text \<open>The subtree under a unary root.\<close>

fun drop_root :: "tree \<Rightarrow> tree" where
  "drop_root (Prim f [t]) = t"
| "drop_root t = t"

text \<open>
  A small library: trees over \<open>sqrt\<close> are compiled to a function of \<open>arity\<close> arguments,
  every initial tree is the first argument, breeding keeps the first individuals
  unchanged, crossover moves the node under the root of the second tree to the leaves
  of the first, and mutation grows the leaves.
\<close>

fun toy_eval :: "tree \<Rightarrow> real list \<Rightarrow> exn + real" where
  "toy_eval (Terminal i) row = (if i < length row then Inr (row ! i) else Inl IndexError)"
| "toy_eval (Prim f [t]) row =
     (case toy_eval t row of
        Inl e \<Rightarrow> Inl e
      | Inr v \<Rightarrow> (if v < 0 then Inl ValueError else Inr (sqrt v)))"
| "toy_eval (Prim f ts) row = Inl TypeError"

definition toy_compile :: "tree \<Rightarrow> pset \<Rightarrow> rowfun" where
  "toy_compile t p row = (if length row \<noteq> arity p then Inl TypeError else toy_eval t row)"

definition toy_lib :: deap where
  "toy_lib =
     \<lparr>compile = toy_compile,
      func_dict = [(''sqrt'', 1)],
      population = (\<lambda>ex n. replicate n (Terminal 0)),
      breed = (\<lambda>alg cxpb mutpb tournsize g pop k. take k pop),
      select = (\<lambda>tournsize g pop k. take k pop),
      cxOnePoint = (\<lambda>a b. (grow_leaf a, drop_root b)),
      mutUniform = grow_leaf,
      choice = (\<lambda>i. 0)\<rparr>"

definition toy_pset :: pset where
  "toy_pset = \<lparr>arity = 1, primitives = [(''sqrt'', 1)]\<rparr>"

definition toy_learner :: dls where
  "toy_learner = init ''DEAP_data'' False 2 (4 / 10) (4 / 10) 1 ''simple'' [''sqrt'']"

definition sqrt_tree :: tree where
  "sqrt_tree = Prim ''sqrt'' [Terminal 0]"

definition toy_built :: dls where
  "toy_built = snd (build_model toy_lib X_plain y_plain 3 (reset toy_learner))"

text \<open>Data that the first argument fits exactly, and a learner whose hall of fame holds it.\<close>

definition X_exact :: frame where
  "X_exact = \<lparr>columns = [''x''], rows = [[2], [1]]\<rparr>"

definition arg_scored :: individual where
  "arg_scored = \<lparr>tree = Terminal 0, fitness = Some [Fin 0]\<rparr>"

definition toy_with_model :: dls where
  "toy_with_model = toy_built\<lparr>hof := Some \<lparr>maxsize = 1, items = [arg_scored]\<rparr>\<rparr>"

text \<open>A newly created learner with the configuration of \<open>s\<close>.\<close>

definition fresh :: "dls \<Rightarrow> dls" where
  "fresh s =
     set_add_func
       (init (path s) (verbose s) (population_size s) (crossover_prob s) (mutation_prob s)
          (ngens s) (algorithm s) (func_list s))
       (add_func s)"

text \<open>The small learner built on the exact data, ready for \<open>train\<close>.\<close>

definition toy_ready :: dls where
  "toy_ready = snd (build_model toy_lib X_exact y_plain 3 (reset toy_learner))"

definition arg_unscored :: individual where
  "arg_unscored = \<lparr>tree = Terminal 0, fitness = None\<rparr>"

text \<open>
  A penalty that reads the learner it is given: the value of the compiled function
  \<open>dls.func\<close> on the row \<open>[4]\<close>.
\<close>

definition func_at_four :: penalty where
  "func_at_four dls X y =
     (case func dls of
        None \<Rightarrow> Inl AttributeError
      | Some f \<Rightarrow> (case f [4] of Inl e \<Rightarrow> Inl e | Inr r \<Rightarrow> Inr (Fin r)))"

definition toy_penalised :: dls where
  "toy_penalised = set_add_func toy_built func_at_four"



section \<open>Results about the strategy table\<close>

lemma algo_dict_keys: "set (map fst algo_dict) = {''simple'', ''mu+lambda'', ''mu,lambda''}"
  by (auto simp: algo_dict_def)

lemma ea_not_bound: "module_getattr deap_algorithms_dir ''ea'' = Inl AttributeError"
  by (simp add: module_getattr_def deap_algorithms_dir_def)

lemma get_algorithm_known:
  "get_algorithm ''simple'' = (Inr (Some EaSimple), [])"
  "get_algorithm ''mu+lambda'' = (Inr (Some EaMuPlusLambda), [])"
  "get_algorithm ''mu,lambda'' = (Inr (Some EaMuCommaLambda), [])"
  by (simp_all add: get_algorithm_def get_algorithm_in_def algo_dict_def dict_get_def)

text \<open>
  Had the module an attribute \<open>ea\<close>, the lookup would fall through to the default, as
  the docstring of \<open>get_algorithm\<close> says.
\<close>

lemma get_algorithm_in_default:
  assumes "key \<notin> {''simple'', ''mu+lambda'', ''mu,lambda''}" and "''ea'' \<in> set names"
  shows "get_algorithm_in names key = (Inr (Some EaSimple), [key_warning key])"
proof -
  have k: "key \<notin> set (map fst algo_dict)"
    using assms(1) unfolding algo_dict_keys by simp
  have m: "map_of algo_dict key = None"
    using k by (simp add: map_of_eq_None_iff)
  have s: "dict_get algo_dict ''simple'' None = Some EaSimple"
    by (simp add: dict_get_def algo_dict_def)
  show ?thesis
    using k m s assms(2) by (simp add: get_algorithm_in_def module_getattr_def dict_get_def)
qed

lemma get_algorithm_unknown:
  assumes "key \<notin> {''simple'', ''mu+lambda'', ''mu,lambda''}"
  shows "get_algorithm key = (Inl AttributeError, [key_warning key])"
proof -
  have k: "key \<notin> set (map fst algo_dict)"
    using assms unfolding algo_dict_keys by simp
  show ?thesis
    using k by (simp add: get_algorithm_def get_algorithm_in_def ea_not_bound)
qed

text \<open>
  C1.  For a name outside the table, \<open>get_algorithm\<close> prints its warning and then
  raises \<open>AttributeError\<close>: it does not return the simple strategy, and \<open>train\<close>
  with such a name raises with it.
\<close>

theorem get_algorithm_unknown_raises:
  assumes "key \<notin> {''simple'', ''mu+lambda'', ''mu,lambda''}"
  shows "get_algorithm key = (Inl AttributeError, [key_warning key])
         \<and> fst (train lib (set_algorithm s key)) = Inl AttributeError
         \<and> stdout (snd (train lib (set_algorithm s key))) = stdout s @ [key_warning key]"
proof -
  note g = get_algorithm_unknown [OF assms]
  show ?thesis
    by (simp add: g train_def set_algorithm_def Let_def)
qed

theorem get_algorithm_unknown_raises_witness:
  "get_algorithm ''nsga2'' = (Inl AttributeError, [key_warning ''nsga2''])
   \<and> fst (train toy_lib (set_algorithm toy_learner ''nsga2'')) = Inl AttributeError"
  using get_algorithm_unknown_raises [of "''nsga2''" toy_lib toy_learner] by simp


section \<open>Results about frames and row-wise evaluation\<close>

lemma map_map2_right:
  assumes "length rs = length vs" and "\<And>r v. r \<in> set rs \<Longrightarrow> f (g r v) = v"
  shows "map f (map2 g rs vs) = vs"
  using assms by (induction rs vs rule: list_induct2) auto

lemma map_map2_left:
  assumes "length rs = length vs" and "\<And>r v. r \<in> set rs \<Longrightarrow> f (g r v) = h r"
  shows "map f (map2 g rs vs) = map h rs"
  using assms by (induction rs vs rule: list_induct2) auto

lemma col_index_append: "name \<notin> set cols \<Longrightarrow> col_index (cols @ [name]) name = length cols"
  unfolding col_index_def by (induction cols) auto

lemma col_index_less: "name \<in> set cols \<Longrightarrow> col_index cols name < length cols"
  unfolding col_index_def by (induction cols) auto

lemma col_index_hit: "name \<in> set cols \<Longrightarrow> cols ! col_index cols name = name"
  unfolding col_index_def by (induction cols) auto

lemma overwrite_cell:
  assumes "name \<in> set cols" and "length r = length cols"
  shows "map2 (\<lambda>c x. if c = name then v else x) cols r ! col_index cols name = v"
proof -
  have "col_index cols name < length (zip cols r)"
    using col_index_less [OF assms(1)] assms(2) by simp
  then show ?thesis
    using col_index_hit [OF assms(1)] by (simp add: assms(2))
qed

lemma wf_frame_row: "wf_frame X \<Longrightarrow> r \<in> set (rows X) \<Longrightarrow> length r = length (columns X)"
  by (simp add: wf_frame_def list_all_iff)

lemma getitem_setitem:
  assumes "wf_frame X" and "length vals = length (rows X)"
  shows "getitem (setitem X name vals) name = Inr vals"
proof (cases "name \<in> set (columns X)")
  case True
  have "map (\<lambda>r. r ! col_index (columns X) name)
          (map2 (\<lambda>r v. map2 (\<lambda>c x. if c = name then v else x) (columns X) r) (rows X) vals) = vals"
    by (rule map_map2_right) (simp_all add: assms(2) overwrite_cell [OF True] wf_frame_row [OF assms(1)])
  then show ?thesis using True by (simp add: getitem_def setitem_def)
next
  case False
  have "map (\<lambda>r. r ! length (columns X)) (map2 (\<lambda>r v. r @ [v]) (rows X) vals) = vals"
    by (rule map_map2_right) (simp_all add: assms(2) wf_frame_row [OF assms(1), symmetric])
  then show ?thesis using False by (simp add: getitem_def setitem_def col_index_append)
qed

lemma filter_keep_all: "name \<notin> set cols \<Longrightarrow> filter (\<lambda>c. c \<noteq> name) cols = cols"
  by (induction cols) auto

lemma drop_appended_cell:
  assumes "name \<notin> set cols" and "length r = length cols"
  shows "map snd (filter (\<lambda>(c, x). c \<noteq> name) (zip (cols @ [name]) (r @ [v]))) = r"
  using assms(2) assms(1) by (induction r cols rule: list_induct2) auto

lemma drop_overwritten_cell:
  "map snd (filter (\<lambda>(c, x). c \<noteq> name)
      (zip cols (map2 (\<lambda>c x. if c = name then v else x) cols r)))
   = map snd (filter (\<lambda>(c, x). c \<noteq> name) (zip cols r))"
proof (induction cols arbitrary: r)
  case Nil
  then show ?case by simp
next
  case (Cons c cols)
  then show ?case by (cases r) auto
qed

lemma drop_setitem_absent:
  assumes "wf_frame X" and "length vals = length (rows X)" and "name \<notin> set (columns X)"
  shows "drop_col (setitem X name vals) name = Inr X"
proof -
  have "map (\<lambda>r. map snd (filter (\<lambda>(c, x). c \<noteq> name) (zip (columns X @ [name]) r)))
          (map2 (\<lambda>r v. r @ [v]) (rows X) vals) = map (\<lambda>r. r) (rows X)"
  proof (rule map_map2_left)
    show "length (rows X) = length vals" by (simp add: assms(2))
  next
    fix r :: "real list" and v :: real
    assume "r \<in> set (rows X)"
    then have "length r = length (columns X)" by (rule wf_frame_row [OF assms(1)])
    then show "map snd (filter (\<lambda>(c, x). c \<noteq> name) (zip (columns X @ [name]) (r @ [v]))) = r"
      by (rule drop_appended_cell [OF assms(3)])
  qed
  then show ?thesis
    using assms(3) by (simp add: drop_col_def setitem_def filter_keep_all)
qed

lemma drop_setitem_present:
  assumes "length vals = length (rows X)" and "name \<in> set (columns X)"
  shows "drop_col (setitem X name vals) name = drop_col X name"
proof -
  have "map (\<lambda>r. map snd (filter (\<lambda>(c, x). c \<noteq> name) (zip (columns X) r)))
          (map2 (\<lambda>r v. map2 (\<lambda>c x. if c = name then v else x) (columns X) r) (rows X) vals)
        = map (\<lambda>r. map snd (filter (\<lambda>(c, x). c \<noteq> name) (zip (columns X) r))) (rows X)"
    by (rule map_map2_left) (simp_all add: assms(1) drop_overwritten_cell)
  then show ?thesis
    using assms(2) by (simp add: drop_col_def setitem_def)
qed

lemma filter_drops_member: "name \<in> set cols \<Longrightarrow> filter (\<lambda>c. c \<noteq> name) cols \<noteq> cols"
proof
  assume m: "name \<in> set cols" and e: "filter (\<lambda>c. c \<noteq> name) cols = cols"
  have "name \<notin> set (filter (\<lambda>c. c \<noteq> name) cols)" by simp
  then show False using m e by simp
qed

text \<open>What \<open>get_result\<close> returns and what it leaves in \<open>X\<close>, in both cases.\<close>

lemma get_result_absent:
  assumes "wf_frame X" and "''result'' \<notin> set (columns X)"
  shows "get_result f X y = Inr (map (temp f) (rows X), X)"
  using assms
  by (simp add: get_result_def Let_def getitem_setitem drop_setitem_absent)

lemma get_result_present:
  assumes "wf_frame X" and "''result'' \<in> set (columns X)"
  shows "get_result f X y =
           Inr (map (temp f) (rows X),
                \<lparr>columns = filter (\<lambda>c. c \<noteq> ''result'') (columns X),
                 rows = map (\<lambda>r. map snd (filter (\<lambda>(c, x). c \<noteq> ''result'') (zip (columns X) r)))
                            (rows X)\<rparr>)"
  using assms
  by (simp add: get_result_def Let_def getitem_setitem drop_setitem_present)
    (simp add: drop_col_def)

lemma sq_diffs:
  "map (\<lambda>d. d ^ 2) (map2 (\<lambda>p t. p - t) ps ys) = map2 (\<lambda>p t. (p - t) ^ 2) ps (ys :: real list)"
proof (induction ps arbitrary: ys)
  case Nil
  then show ?case by simp
next
  case (Cons p ps)
  then show ?case by (cases ys) simp_all
qed

lemma temp_cases:
  "(case f row of Inl e \<Rightarrow> temp f row = 9999 | Inr v \<Rightarrow> temp f row = v)"
  by (simp add: temp_def split: sum.split)

lemma get_result_returns:
  assumes "wf_frame X"
  shows "\<exists>X'. get_result f X y = Inr (map (temp f) (rows X), X')"
proof (cases "''result'' \<in> set (columns X)")
  case True
  then show ?thesis using get_result_present [OF assms] by blast
next
  case False
  then show ?thesis using get_result_absent [OF assms] by blast
qed

text \<open>
  C2.  \<open>get_result\<close> always returns: the prediction of a row on which the compiled
  function raises is 9999, the prediction of any other row is the function's value, and
  \<open>_mse\<close> is the mean of the squared differences of these predictions from \<open>y\<close>.
\<close>

theorem get_result_sentinel:
  assumes "wf_frame X"
  shows "\<exists>preds X'. get_result f X y = Inr (preds, X')
           \<and> length preds = length (rows X)
           \<and> (\<forall>i<length (rows X).
                 (case f (rows X ! i) of Inl e \<Rightarrow> preds ! i = 9999 | Inr v \<Rightarrow> preds ! i = v))
           \<and> mse f X y = Inr (np_mean (map2 (\<lambda>p t. (p - t) ^ 2) preds y), X')"
proof -
  obtain X' where g: "get_result f X y = Inr (map (temp f) (rows X), X')"
    using get_result_returns [OF assms] by blast
  let ?preds = "map (temp f) (rows X)"
  have l: "length ?preds = length (rows X)" by simp
  have c: "\<forall>i<length (rows X).
             (case f (rows X ! i) of Inl e \<Rightarrow> ?preds ! i = 9999 | Inr v \<Rightarrow> ?preds ! i = v)"
    by (simp add: temp_def split: sum.split)
  have "mse f X y = Inr (np_mean (map (\<lambda>d. d ^ 2) (map2 (\<lambda>p t. p - t) ?preds y)), X')"
    unfolding mse_def g by (simp only: sum.case prod.case Let_def)
  then have m: "mse f X y = Inr (np_mean (map2 (\<lambda>p t. (p - t) ^ 2) ?preds y), X')"
    by (simp only: sq_diffs)
  show ?thesis using g l c m by blast
qed

theorem get_result_sentinel_witness:
  "wf_frame X_plain
   \<and> get_result root_fun X_plain y_plain = Inr ([2, 9999], X_plain)
   \<and> mse root_fun X_plain y_plain = Inr (Fin 49980002, X_plain)
   \<and> (\<exists>preds X'. get_result root_fun X_plain y_plain = Inr (preds, X')
           \<and> length preds = length (rows X_plain)
           \<and> (\<forall>i<length (rows X_plain).
                 (case root_fun (rows X_plain ! i) of Inl e \<Rightarrow> preds ! i = 9999
                  | Inr v \<Rightarrow> preds ! i = v))
           \<and> mse root_fun X_plain y_plain
               = Inr (np_mean (map2 (\<lambda>p t. (p - t) ^ 2) preds y_plain), X'))"
proof -
  have w: "wf_frame X_plain" by (simp add: wf_frame_def X_plain_def)
  have n: "''result'' \<notin> set (columns X_plain)" by (simp add: X_plain_def)
  have g: "get_result root_fun X_plain y_plain = Inr ([2, 9999], X_plain)"
    using get_result_absent [OF w n] by (simp add: X_plain_def root_fun_def temp_def)
  have m: "mse root_fun X_plain y_plain = Inr (Fin 49980002, X_plain)"
    using g by (simp add: mse_def y_plain_def np_mean_def)
  show ?thesis using w g m get_result_sentinel [OF w, of root_fun y_plain] by blast
qed

text \<open>
  C10.  A frame without a column \<open>result\<close> is left exactly as it was; a frame with one
  loses it, so that the frame left behind has other columns than before.
\<close>

theorem get_result_frame_effect:
  assumes "wf_frame X"
  shows "\<exists>preds X'. get_result f X y = Inr (preds, X')
           \<and> (''result'' \<notin> set (columns X) \<longrightarrow> X' = X)
           \<and> (''result'' \<in> set (columns X) \<longrightarrow>
                 drop_col X ''result'' = Inr X'
                 \<and> columns X' = filter (\<lambda>c. c \<noteq> ''result'') (columns X)
                 \<and> columns X' \<noteq> columns X)"
proof (cases "''result'' \<in> set (columns X)")
  case True
  then show ?thesis
    using get_result_present [OF assms True, of f y] filter_drops_member [OF True]
    by (simp add: drop_col_def)
next
  case False
  then show ?thesis using get_result_absent [OF assms False, of f y] by simp
qed

theorem get_result_frame_effect_witness:
  "wf_frame X_plain \<and> wf_frame X_taken
   \<and> ''result'' \<notin> set (columns X_plain) \<and> ''result'' \<in> set (columns X_taken)
   \<and> (\<exists>preds. get_result root_fun X_plain y_plain = Inr (preds, X_plain))
   \<and> (\<exists>preds. get_result root_fun X_taken y_plain = Inr (preds, X_plain))
   \<and> columns X_plain \<noteq> columns X_taken"
proof -
  have w0: "wf_frame X_plain" by (simp add: wf_frame_def X_plain_def)
  have w1: "wf_frame X_taken" by (simp add: wf_frame_def X_taken_def)
  have n0: "''result'' \<notin> set (columns X_plain)" by (simp add: X_plain_def)
  have n1: "''result'' \<in> set (columns X_taken)" by (simp add: X_taken_def)
  have d: "drop_col X_taken ''result'' = Inr X_plain"
    by (simp add: drop_col_def X_taken_def X_plain_def)
  have a: "\<exists>preds. get_result root_fun X_plain y_plain = Inr (preds, X_plain)"
    using get_result_frame_effect [OF w0, of root_fun y_plain] n0 by auto
  have b: "\<exists>preds. get_result root_fun X_taken y_plain = Inr (preds, X_plain)"
    using get_result_frame_effect [OF w1, of root_fun y_plain] n1 d by auto
  have c: "columns X_plain \<noteq> columns X_taken" by (simp add: X_plain_def X_taken_def)
  show ?thesis using w0 w1 n0 n1 a b c by blast
qed

section \<open>Results about fitness evaluation and scoring\<close>

lemma mse_returns:
  assumes "wf_frame X"
  shows "\<exists>X'. mse f X y = Inr (np_mean (map2 (\<lambda>p t. (p - t) ^ 2) (map (temp f) (rows X)) y), X')"
proof -
  obtain X' where g: "get_result f X y = Inr (map (temp f) (rows X), X')"
    using get_result_returns [OF assms] by blast
  have "mse f X y
          = Inr (np_mean (map (\<lambda>d. d ^ 2) (map2 (\<lambda>p t. p - t) (map (temp f) (rows X)) y)), X')"
    unfolding mse_def g by (simp only: sum.case prod.case Let_def)
  then show ?thesis by (simp only: sq_diffs) blast
qed

lemma fadd_zero: "fadd m (Fin 0) = m"
  by (cases m) simp_all

lemma default_add_func: "add_func (init pa ve n cx mt ng al fl) = (\<lambda>f X y. Inr (Fin 0))"
  by (simp add: init_def)

lemma eval_helper_value:
  assumes "pset s = Some p" and "mse (compile lib ind p) X y = Inr (m, X')"
    and "add_func s (self_view (s\<lparr>func := Some (compile lib ind p)\<rparr>)) X' y = Inr a"
  shows "eval_helper lib s ind X y = ((Inr [fadd m a], s\<lparr>func := Some (compile lib ind p)\<rparr>), X')"
  using assms by (simp add: eval_helper_def Let_def)

lemma ind_score_value:
  assumes "pset s = Some p" and "mse (compile lib ind p) X y = Inr (m, X')"
    and "add_func s (self_view (s\<lparr>func := Some (compile lib ind p)\<rparr>)) X' y = Inr a"
  shows "ind_score lib s ind X y = ((Inr (m, a), s\<lparr>func := Some (compile lib ind p)\<rparr>), X')"
  using assms by (simp add: ind_score_def Let_def)

text \<open>
  C5.  On a built learner, with \<open>mse\<close> the mean of the squared differences between the
  predictions of the compiled individual and \<open>y\<close>, and \<open>a\<close> what the auxiliary penalty
  returns, \<open>eval_helper\<close> returns the one-element tuple holding the sum of the two and
  \<open>ind_score\<close> returns the pair \<open>(mse, a)\<close>; the penalty that \<open>__init__\<close> installs is
  constantly 0, and with it \<open>eval_helper\<close> returns \<open>(mse,)\<close>.
\<close>

theorem fitness_shapes:
  assumes "wf_frame X" and "pset s = Some p"
  shows "\<exists>m X'. mse (compile lib ind p) X y = Inr (m, X')
           \<and> m = np_mean (map2 (\<lambda>q t. (q - t) ^ 2) (map (temp (compile lib ind p)) (rows X)) y)
           \<and> (\<forall>a. add_func s (self_view (s\<lparr>func := Some (compile lib ind p)\<rparr>)) X' y = Inr a \<longrightarrow>
                  fst (fst (eval_helper lib s ind X y)) = Inr [fadd m a]
                  \<and> fst (fst (ind_score lib s ind X y)) = Inr (m, a)
                  \<and> (\<forall>x z. m = Fin x \<longrightarrow> a = Fin z \<longrightarrow>
                        fst (fst (eval_helper lib s ind X y)) = Inr [Fin (x + z)]
                        \<and> fst (fst (ind_score lib s ind X y)) = Inr (Fin x, Fin z)))
           \<and> add_func init_default = (\<lambda>dls X y. Inr (Fin 0))
           \<and> (add_func s = add_func init_default \<longrightarrow>
                  fst (fst (eval_helper lib s ind X y)) = Inr [m]
                  \<and> fst (fst (ind_score lib s ind X y)) = Inr (m, Fin 0))"
proof -
  obtain X' where e: "mse (compile lib ind p) X y
      = Inr (np_mean (map2 (\<lambda>q t. (q - t) ^ 2) (map (temp (compile lib ind p)) (rows X)) y), X')"
    using mse_returns [OF assms(1)] by blast
  let ?m = "np_mean (map2 (\<lambda>q t. (q - t) ^ 2) (map (temp (compile lib ind p)) (rows X)) y)"
  let ?v = "self_view (s\<lparr>func := Some (compile lib ind p)\<rparr>)"
  have d: "add_func init_default = (\<lambda>dls X y. Inr (Fin 0))"
    by (simp add: init_default_def default_add_func)
  have 1: "\<forall>a. add_func s ?v X' y = Inr a \<longrightarrow>
                  fst (fst (eval_helper lib s ind X y)) = Inr [fadd ?m a]
                  \<and> fst (fst (ind_score lib s ind X y)) = Inr (?m, a)
                  \<and> (\<forall>x z. ?m = Fin x \<longrightarrow> a = Fin z \<longrightarrow>
                        fst (fst (eval_helper lib s ind X y)) = Inr [Fin (x + z)]
                        \<and> fst (fst (ind_score lib s ind X y)) = Inr (Fin x, Fin z))"
  proof (intro allI impI)
    fix a
    assume a: "add_func s ?v X' y = Inr a"
    have ev: "fst (fst (eval_helper lib s ind X y)) = Inr [fadd ?m a]"
      by (simp add: eval_helper_value [OF assms(2) e a])
    have sc: "fst (fst (ind_score lib s ind X y)) = Inr (?m, a)"
      by (simp add: ind_score_value [OF assms(2) e a])
    have "fst (fst (eval_helper lib s ind X y)) = Inr [Fin (x + z)]
            \<and> fst (fst (ind_score lib s ind X y)) = Inr (Fin x, Fin z)"
      if "?m = Fin x" and "a = Fin z" for x z
      using that ev sc by simp
    then show "fst (fst (eval_helper lib s ind X y)) = Inr [fadd ?m a]
                  \<and> fst (fst (ind_score lib s ind X y)) = Inr (?m, a)
                  \<and> (\<forall>x z. ?m = Fin x \<longrightarrow> a = Fin z \<longrightarrow>
                        fst (fst (eval_helper lib s ind X y)) = Inr [Fin (x + z)]
                        \<and> fst (fst (ind_score lib s ind X y)) = Inr (Fin x, Fin z))"
      using ev sc by blast
  qed
  have 2: "add_func s = add_func init_default \<longrightarrow>
                  fst (fst (eval_helper lib s ind X y)) = Inr [?m]
                  \<and> fst (fst (ind_score lib s ind X y)) = Inr (?m, Fin 0)"
  proof
    assume "add_func s = add_func init_default"
    then have z: "add_func s ?v X' y = Inr (Fin 0)" by (simp add: d)
    show "fst (fst (eval_helper lib s ind X y)) = Inr [?m]
            \<and> fst (fst (ind_score lib s ind X y)) = Inr (?m, Fin 0)"
      by (simp add: eval_helper_value [OF assms(2) e z] ind_score_value [OF assms(2) e z] fadd_zero)
  qed
  show ?thesis using e d 1 2 by blast
qed

lemma toy_built_fields:
  "pset toy_built = Some toy_pset"
  "add_func toy_built = add_func init_default"
  "Fitness toy_built = Some [- 1]"
  "hof toy_built = None"
  "tb_mate (toolbox toy_built) = Some 17"
  "tb_mutate (toolbox toy_built) = Some 17"
  "tb_select (toolbox toy_built) = Some 3"
  "tb_population (toolbox toy_built) = Some (toy_pset, 1, 2)"
  "tb_evaluate (toolbox toy_built) = Some (EvalData X_plain y_plain)"
  by (simp_all add: toy_built_def build_model_def invariant_build_model_def andthen_def
      create_fitness_def create_and_reg_individual_def create_and_reg_population_def
      reg_selection_def reg_mutation_def reg_mating_def reg_eval_def reset_def print_def
      toy_learner_def init_def init_default_def Toolbox_def toy_lib_def toy_pset_def
      get_arity_from_X_def X_plain_def Let_def)

lemma toy_predictions:
  "map (temp (toy_compile sqrt_tree toy_pset)) (rows X_plain) = [2, 9999]"
  by (simp add: temp_def toy_compile_def sqrt_tree_def toy_pset_def X_plain_def)

lemma toy_mse: "mse (toy_compile sqrt_tree toy_pset) X_plain y_plain = Inr (Fin 49980002, X_plain)"
proof -
  have w: "wf_frame X_plain" by (simp add: wf_frame_def X_plain_def)
  have n: "''result'' \<notin> set (columns X_plain)" by (simp add: X_plain_def)
  show ?thesis
    using get_result_absent [OF w n, of "toy_compile sqrt_tree toy_pset" y_plain]
    by (simp add: mse_def toy_predictions y_plain_def np_mean_def)
qed

lemma toy_penalised_fields:
  "pset toy_penalised = Some toy_pset"
  "add_func toy_penalised = func_at_four"
  by (simp_all add: toy_penalised_def set_add_func_def toy_built_fields)

lemma toy_penalty_value:
  "func_at_four (self_view (s\<lparr>func := Some (toy_compile sqrt_tree toy_pset)\<rparr>)) X y = Inr (Fin 2)"
  by (simp add: func_at_four_def self_view_def toy_compile_def sqrt_tree_def toy_pset_def)

theorem fitness_shapes_witness:
  "wf_frame X_plain \<and> pset toy_penalised = Some toy_pset
   \<and> mse (compile toy_lib sqrt_tree toy_pset) X_plain y_plain = Inr (Fin 49980002, X_plain)
   \<and> add_func toy_penalised
        (self_view (toy_penalised\<lparr>func := Some (compile toy_lib sqrt_tree toy_pset)\<rparr>))
        X_plain y_plain = Inr (Fin 2)
   \<and> fst (fst (eval_helper toy_lib toy_penalised sqrt_tree X_plain y_plain)) = Inr [Fin 49980004]
   \<and> fst (fst (ind_score toy_lib toy_penalised sqrt_tree X_plain y_plain))
       = Inr (Fin 49980002, Fin 2)
   \<and> add_func toy_built = add_func init_default
   \<and> fst (fst (eval_helper toy_lib toy_built sqrt_tree X_plain y_plain)) = Inr [Fin 49980002]
   \<and> fst (fst (ind_score toy_lib toy_built sqrt_tree X_plain y_plain))
       = Inr (Fin 49980002, Fin 0)"
proof -
  have w: "wf_frame X_plain" by (simp add: wf_frame_def X_plain_def)
  have c: "compile toy_lib = toy_compile" by (simp add: toy_lib_def)
  have m: "mse (compile toy_lib sqrt_tree toy_pset) X_plain y_plain = Inr (Fin 49980002, X_plain)"
    by (simp add: c toy_mse)
  have a: "add_func toy_penalised
        (self_view (toy_penalised\<lparr>func := Some (compile toy_lib sqrt_tree toy_pset)\<rparr>))
        X_plain y_plain = Inr (Fin 2)"
    by (simp add: toy_penalised_fields c toy_penalty_value)
  have 1: "fst (fst (eval_helper toy_lib toy_penalised sqrt_tree X_plain y_plain)) = Inr [Fin 49980004]
      \<and> fst (fst (ind_score toy_lib toy_penalised sqrt_tree X_plain y_plain))
          = Inr (Fin 49980002, Fin 2)"
    using fitness_shapes [OF w toy_penalised_fields(1), of toy_lib sqrt_tree y_plain] m a
    by auto
  have 2: "fst (fst (eval_helper toy_lib toy_built sqrt_tree X_plain y_plain)) = Inr [Fin 49980002]
      \<and> fst (fst (ind_score toy_lib toy_built sqrt_tree X_plain y_plain))
          = Inr (Fin 49980002, Fin 0)"
    using fitness_shapes [OF w toy_built_fields(1), of toy_lib sqrt_tree y_plain] m
    by (auto simp: toy_built_fields)
  show ?thesis using w toy_penalised_fields(1) m a 1 2 toy_built_fields(2) by blast
qed

lemma self_view_func:
  "self_view (s\<lparr>func := g0, func := g\<rparr>) = self_view (s\<lparr>func := g\<rparr>)"
  by simp











text \<open>
  C3.  Without a hall of fame \<open>score\<close> does not raise: it prints that no best model was
  found and returns the integer 0.  A score that \<open>ind_score\<close> computed is returned as a
  pair, which is a different value, also when both components are zero.
\<close>

theorem score_without_model:
  assumes "hof s = None"
  shows "score lib s X y = ((ScoreInt 0, print ''Could not find Best model'' s), X)
         \<and> (\<forall>t X2 y2 h best rest m v.
               hof t = Some h \<longrightarrow> items h = best # rest \<longrightarrow>
               fst (fst (ind_score lib t (tree best) X2 y2)) = Inr (m, v) \<longrightarrow>
               fst (fst (score lib t X2 y2)) = ScorePair m v
               \<and> fst (fst (score lib t X2 y2)) \<noteq> fst (fst (score lib s X y)))"
proof -
  have d: "score lib s X y = ((ScoreInt 0, print ''Could not find Best model'' s), X)"
    using assms by (simp add: score_def)
  have r: "fst (fst (score lib t X2 y2)) = ScorePair m v"
    if "hof t = Some h" and "items h = best # rest"
      and "fst (fst (ind_score lib t (tree best) X2 y2)) = Inr (m, v)"
    for t X2 y2 h best rest m v
    using that by (auto simp: score_def split: prod.split sum.split)
  show ?thesis using d r by simp
qed

theorem score_without_model_witness:
  "hof toy_learner = None
   \<and> score toy_lib toy_learner X_exact y_plain
       = ((ScoreInt 0, print ''Could not find Best model'' toy_learner), X_exact)
   \<and> stdout (snd (fst (score toy_lib toy_learner X_exact y_plain))) = [''Could not find Best model'']
   \<and> fst (fst (score toy_lib toy_with_model X_exact y_plain)) = ScorePair (Fin 0) (Fin 0)
   \<and> fst (fst (score toy_lib toy_with_model X_exact y_plain))
       \<noteq> fst (fst (score toy_lib toy_learner X_exact y_plain))"
proof -
  have n: "hof toy_learner = None" by (simp add: toy_learner_def init_def)
  have h: "hof toy_with_model = Some \<lparr>maxsize = 1, items = [arg_scored]\<rparr>"
    by (simp add: toy_with_model_def)
  have w: "wf_frame X_exact" by (simp add: wf_frame_def X_exact_def)
  have nr: "''result'' \<notin> set (columns X_exact)" by (simp add: X_exact_def)
  have c: "compile toy_lib = toy_compile" by (simp add: toy_lib_def)
  have m: "mse (compile toy_lib (Terminal 0) toy_pset) X_exact y_plain = Inr (Fin 0, X_exact)"
    using get_result_absent [OF w nr, of "toy_compile (Terminal 0) toy_pset" y_plain]
    by (simp add: c mse_def y_plain_def np_mean_def temp_def toy_compile_def toy_pset_def X_exact_def)
  have p: "pset toy_with_model = Some toy_pset" by (simp add: toy_with_model_def toy_built_fields)
  have z: "add_func toy_with_model
             (self_view (toy_with_model\<lparr>func := Some (compile toy_lib (Terminal 0) toy_pset)\<rparr>))
             X_exact y_plain = Inr (Fin 0)"
    by (simp add: toy_with_model_def toy_built_fields init_default_def default_add_func)
  have i: "fst (fst (ind_score toy_lib toy_with_model (tree arg_scored) X_exact y_plain))
             = Inr (Fin 0, Fin 0)"
    using ind_score_value [OF p m z] by (simp add: arg_scored_def)
  have o: "stdout toy_learner = []" by (simp add: toy_learner_def init_def)
  show ?thesis
    using score_without_model [OF n, of toy_lib X_exact y_plain] n h i o
    by (simp add: print_def)
qed

section \<open>Results about the result interface\<close>

lemma assign_hof_item_aliases:
  assumes "hof (learner w) = Some h" and "items h = best # rest"
  shows "deref (assign_tree w (HofItem 0) t) (HofItem 0) = Some (best\<lparr>tree := t\<rparr>)"
  using assms by simp

text \<open>
  C9.  With a best individual in the hall of fame, \<open>get_predicted_equation\<close> returns a
  reference to a new object with the content of that individual; replacing the tree of
  the returned object changes that object and leaves the learner, and with it the
  individual in the hall of fame, as it was.
\<close>

theorem get_predicted_equation_independent:
  assumes "hof (learner w) = Some h" and "items h = best # rest"
  shows "\<exists>r w'. get_predicted_equation w = (Inr r, w')
           \<and> r \<noteq> HofItem 0
           \<and> deref w r = None
           \<and> deref w' r = Some best
           \<and> deref w' (HofItem 0) = Some best
           \<and> (\<forall>t. deref (assign_tree w' r t) r = Some (best\<lparr>tree := t\<rparr>)
                   \<and> deref (assign_tree w' r t) (HofItem 0) = Some best
                   \<and> learner (assign_tree w' r t) = learner w)"
proof -
  let ?r = "Local (length (locals w))"
  let ?w = "w\<lparr>locals := locals w @ [best]\<rparr>"
  have g: "get_predicted_equation w = (Inr ?r, ?w)"
    using assms by (simp add: get_predicted_equation_def)
  have "deref w ?r = None" by simp
  moreover have "deref ?w ?r = Some best" by simp
  moreover have "deref ?w (HofItem 0) = Some best" using assms by simp
  moreover have "\<forall>t. deref (assign_tree ?w ?r t) ?r = Some (best\<lparr>tree := t\<rparr>)
                   \<and> deref (assign_tree ?w ?r t) (HofItem 0) = Some best
                   \<and> learner (assign_tree ?w ?r t) = learner w"
    using assms by simp
  ultimately show ?thesis using g by blast
qed

theorem get_predicted_equation_independent_witness:
  "hof (learner \<lparr>learner = toy_with_model, locals = []\<rparr>)
     = Some \<lparr>maxsize = 1, items = [arg_scored]\<rparr>
   \<and> get_predicted_equation \<lparr>learner = toy_with_model, locals = []\<rparr>
       = (Inr (Local 0), \<lparr>learner = toy_with_model, locals = [arg_scored]\<rparr>)
   \<and> deref (assign_tree \<lparr>learner = toy_with_model, locals = [arg_scored]\<rparr> (Local 0) sqrt_tree)
        (HofItem 0) = Some arg_scored
   \<and> deref (assign_tree \<lparr>learner = toy_with_model, locals = [arg_scored]\<rparr> (Local 0) sqrt_tree)
        (Local 0) = Some (arg_scored\<lparr>tree := sqrt_tree\<rparr>)"
proof -
  let ?w = "\<lparr>learner = toy_with_model, locals = []\<rparr>"
  have h: "hof (learner ?w) = Some \<lparr>maxsize = 1, items = [arg_scored]\<rparr>"
    by (simp add: toy_with_model_def)
  have i: "items \<lparr>maxsize = 1, items = [arg_scored]\<rparr> = arg_scored # []" by simp
  show ?thesis
    using get_predicted_equation_independent [OF h i] h
    by (simp add: get_predicted_equation_def)
qed

section \<open>Results about the guarded operators\<close>

lemma height_chain: "height (chain n) = n"
  by (induction n) simp_all

lemma grow_leaf_chain: "grow_leaf (chain n) = chain (Suc n)"
  by (induction n) simp_all

lemma staticLimit_returns:
  assumes "args \<noteq> []"
  shows "staticLimit key mx pick operator args
           = Inr (map (\<lambda>(i, ind). if key ind > mx then args ! (pick i mod length args) else ind)
                    (enumerate 0 (operator args)))"
  using assms by (simp add: staticLimit_def Let_def)

lemma guarded_member:
  assumes "args \<noteq> []"
    and "out \<in> set (map (\<lambda>(i, ind). if key ind > (mx :: nat) then args ! (pick i mod length args) else ind)
                    (enumerate n new_inds))"
  shows "(out \<in> set new_inds \<and> key out \<le> mx) \<or> out \<in> set args"
proof -
  from assms(2) obtain i ind where m: "(i, ind) \<in> set (enumerate n new_inds)"
    and o: "out = (if key ind > mx then args ! (pick i mod length args) else ind)"
    by auto
  have ind: "ind \<in> set new_inds" using m by (auto simp: in_set_enumerate_eq)
  have "pick i mod length args < length args" using assms(1) by simp
  then have "args ! (pick i mod length args) \<in> set args" by (rule nth_mem)
  then show ?thesis using o ind by (cases "key ind > mx") auto
qed

lemma staticLimit_outputs:
  assumes "args \<noteq> []" and "staticLimit key mx pick operator args = Inr outs"
  shows "length outs = length (operator args)
         \<and> (\<forall>out \<in> set outs. (out \<in> set (operator args) \<and> key out \<le> mx) \<or> out \<in> set args)"
proof -
  have e: "outs = map (\<lambda>(i, ind). if key ind > mx then args ! (pick i mod length args) else ind)
                    (enumerate 0 (operator args))"
    using assms(2) staticLimit_returns [OF assms(1), of key mx pick operator] by simp
  have "length outs = length (operator args)" by (simp add: e)
  moreover have "\<forall>out \<in> set outs. (out \<in> set (operator args) \<and> key out \<le> mx) \<or> out \<in> set args"
    using guarded_member [OF assms(1)] unfolding e by blast
  ultimately show ?thesis by simp
qed

lemma andthen_Inr:
  "andthen m k s = (Inr u, s') \<Longrightarrow> \<exists>v t. m s = (Inr v, t) \<and> k t = (Inr u, s')"
  by (auto simp: andthen_def split: prod.splits sum.splits)

lemma reg_mutation_Inr:
  "reg_mutation s = (Inr u, s') \<Longrightarrow> tb_mutate (toolbox s') = Some 17 \<and> tb_mate (toolbox s') = tb_mate (toolbox s)"
  by (auto simp: reg_mutation_def Let_def split: option.splits)

lemma invariant_build_model_limits:
  assumes "invariant_build_model lib n ts s = (Inr u, s')"
  shows "tb_mate (toolbox s') = Some 17 \<and> tb_mutate (toolbox s') = Some 17"
proof -
  from assms obtain s1 where 1: "andthen (create_and_reg_individual lib n)
          (andthen create_and_reg_population
             (andthen (reg_selection ts) (andthen reg_mutation reg_mating))) s1 = (Inr u, s')"
    unfolding invariant_build_model_def by (blast dest: andthen_Inr)
  then obtain s2 where 2: "andthen create_and_reg_population
             (andthen (reg_selection ts) (andthen reg_mutation reg_mating)) s2 = (Inr u, s')"
    by (blast dest: andthen_Inr)
  then obtain s3 where 3: "andthen (reg_selection ts) (andthen reg_mutation reg_mating) s3 = (Inr u, s')"
    by (blast dest: andthen_Inr)
  then obtain s4 where 4: "andthen reg_mutation reg_mating s4 = (Inr u, s')"
    by (blast dest: andthen_Inr)
  then obtain s5 v where 5: "reg_mutation s4 = (Inr v, s5)" and 6: "reg_mating s5 = (Inr u, s')"
    by (blast dest: andthen_Inr)
  have "tb_mutate (toolbox s5) = Some 17" using reg_mutation_Inr [OF 5] by simp
  then show ?thesis using 6 by (auto simp: reg_mating_def)
qed

lemma build_model_limits:
  assumes "build_model lib X y ts s = (Inr u, s')"
  shows "tb_mate (toolbox s') = Some 17 \<and> tb_mutate (toolbox s') = Some 17"
proof -
  from assms obtain v t where 1: "invariant_build_model lib (get_arity_from_X X) ts s = (Inr v, t)"
    and 2: "reg_eval X y t = (Inr u, s')"
    unfolding build_model_def by (blast dest: andthen_Inr)
  show ?thesis using invariant_build_model_limits [OF 1] 2 by (auto simp: reg_eval_def)
qed

lemma toy_build_succeeds:
  "build_model toy_lib X_plain y_plain 3 (reset toy_learner) = (Inr (), toy_built)"
proof -
  have "fst (build_model toy_lib X_plain y_plain 3 (reset toy_learner)) = Inr ()"
    by (simp add: build_model_def invariant_build_model_def andthen_def
      create_fitness_def create_and_reg_individual_def create_and_reg_population_def
      reg_selection_def reg_mutation_def reg_mating_def reg_eval_def reset_def print_def
      toy_learner_def init_def Toolbox_def toy_lib_def Let_def)
  then show ?thesis by (simp add: toy_built_def prod_eq_iff)
qed

lemma enumerate_two: "enumerate 0 [a, b] = [(0, a), (Suc 0, b)]"
  by (simp add: enumerate_eq_zip upt_rec)

lemma pick_of_two:
  "[p1, p2] ! (k mod length [p1, p2]) = p1 \<or> [p1, p2] ! (k mod length [p1, p2]) = p2"
proof -
  have "k mod 2 = 0 \<or> k mod 2 = Suc 0" by presburger
  then show ?thesis by (auto simp: numeral_2_eq_2)
qed

lemma staticLimit_two:
  assumes "operator [p1, p2] = [a, b]"
  shows "\<exists>o1 o2. staticLimit key mx pick operator [p1, p2] = Inr [o1, o2]
           \<and> (key a \<le> mx \<longrightarrow> o1 = a) \<and> (mx < key a \<longrightarrow> o1 = p1 \<or> o1 = p2)
           \<and> (key b \<le> mx \<longrightarrow> o2 = b) \<and> (mx < key b \<longrightarrow> o2 = p1 \<or> o2 = p2)"
proof -
  let ?o1 = "if key a > mx then [p1, p2] ! (pick 0 mod length [p1, p2]) else a"
  let ?o2 = "if key b > mx then [p1, p2] ! (pick (Suc 0) mod length [p1, p2]) else b"
  have "staticLimit key mx pick operator [p1, p2] = Inr [?o1, ?o2]"
    by (simp add: staticLimit_def Let_def assms enumerate_two)
  moreover have "(key a \<le> mx \<longrightarrow> ?o1 = a) \<and> (mx < key a \<longrightarrow> ?o1 = p1 \<or> ?o1 = p2)"
    using pick_of_two [of p1 p2 "pick 0"] by auto
  moreover have "(key b \<le> mx \<longrightarrow> ?o2 = b) \<and> (mx < key b \<longrightarrow> ?o2 = p1 \<or> ?o2 = p2)"
    using pick_of_two [of p1 p2 "pick (Suc 0)"] by auto
  ultimately show ?thesis by blast
qed

lemma staticLimit_one:
  assumes "operator [p1] = [a]"
  shows "staticLimit key mx pick operator [p1] = Inr [if key a \<le> mx then a else p1]"
  by (simp add: staticLimit_def Let_def assms)

text \<open>
  C4, as the code has it.  On a built learner the guarded crossover returns two trees and
  the guarded mutation one.  Each is the offspring that the operator made when that
  offspring is not higher than 17, and otherwise one of the parents unchanged; so no
  output is higher than 17 when no parent is.
\<close>

theorem guarded_offspring_height:
  assumes "build_model lib X y ts s0 = (Inr u, s)"
  shows "(\<exists>o1 o2. toolbox_mate lib s ind1 ind2 = Inr [o1, o2]
            \<and> (height (fst (cxOnePoint lib ind1 ind2)) \<le> 17 \<longrightarrow>
                  o1 = fst (cxOnePoint lib ind1 ind2))
            \<and> (17 < height (fst (cxOnePoint lib ind1 ind2)) \<longrightarrow> o1 = ind1 \<or> o1 = ind2)
            \<and> (height (snd (cxOnePoint lib ind1 ind2)) \<le> 17 \<longrightarrow>
                  o2 = snd (cxOnePoint lib ind1 ind2))
            \<and> (17 < height (snd (cxOnePoint lib ind1 ind2)) \<longrightarrow> o2 = ind1 \<or> o2 = ind2)
            \<and> (height ind1 \<le> 17 \<longrightarrow> height ind2 \<le> 17 \<longrightarrow>
                  height o1 \<le> 17 \<and> height o2 \<le> 17))
         \<and> (\<exists>o1. toolbox_mutate lib s ind = Inr [o1]
            \<and> (height (mutUniform lib ind) \<le> 17 \<longrightarrow> o1 = mutUniform lib ind)
            \<and> (17 < height (mutUniform lib ind) \<longrightarrow> o1 = ind)
            \<and> (height ind \<le> 17 \<longrightarrow> height o1 \<le> 17))"
proof -
  note lim = build_model_limits [OF assms]
  let ?cx = "\<lambda>args. case cxOnePoint lib (args ! 0) (args ! 1) of (a, b) \<Rightarrow> [a, b]"
  let ?mt = "\<lambda>args. [mutUniform lib (args ! 0)]"
  let ?a = "fst (cxOnePoint lib ind1 ind2)"
  let ?b = "snd (cxOnePoint lib ind1 ind2)"
  have c: "?cx [ind1, ind2] = [?a, ?b]" by (simp add: case_prod_beta)
  obtain o1 o2 where r: "staticLimit height 17 (choice lib) ?cx [ind1, ind2] = Inr [o1, o2]"
    and a1: "height ?a \<le> 17 \<longrightarrow> o1 = ?a" and a2: "17 < height ?a \<longrightarrow> o1 = ind1 \<or> o1 = ind2"
    and b1: "height ?b \<le> 17 \<longrightarrow> o2 = ?b" and b2: "17 < height ?b \<longrightarrow> o2 = ind1 \<or> o2 = ind2"
    using staticLimit_two [of ?cx ind1 ind2 ?a ?b height 17 "choice lib", OF c] by blast
  have m2: "toolbox_mate lib s ind1 ind2 = Inr [o1, o2]"
    using lim r by (simp add: toolbox_mate_def)
  have h2: "height ind1 \<le> 17 \<longrightarrow> height ind2 \<le> 17 \<longrightarrow> height o1 \<le> 17 \<and> height o2 \<le> 17"
    using a1 a2 b1 b2 by (metis not_le)
  let ?m = "mutUniform lib ind"
  let ?o = "if height ?m \<le> 17 then ?m else ind"
  have "?mt [ind] = [?m]" by simp
  then have "staticLimit height 17 (choice lib) ?mt [ind] = Inr [?o]"
    by (rule staticLimit_one)
  then have m1: "toolbox_mutate lib s ind = Inr [?o]"
    using lim by (simp add: toolbox_mutate_def)
  have p: "\<exists>o1 o2. toolbox_mate lib s ind1 ind2 = Inr [o1, o2]
            \<and> (height ?a \<le> 17 \<longrightarrow> o1 = ?a) \<and> (17 < height ?a \<longrightarrow> o1 = ind1 \<or> o1 = ind2)
            \<and> (height ?b \<le> 17 \<longrightarrow> o2 = ?b) \<and> (17 < height ?b \<longrightarrow> o2 = ind1 \<or> o2 = ind2)
            \<and> (height ind1 \<le> 17 \<longrightarrow> height ind2 \<le> 17 \<longrightarrow>
                  height o1 \<le> 17 \<and> height o2 \<le> 17)"
    using m2 a1 a2 b1 b2 h2 by blast
  have q: "\<exists>o1. toolbox_mutate lib s ind = Inr [o1]
            \<and> (height ?m \<le> 17 \<longrightarrow> o1 = ?m) \<and> (17 < height ?m \<longrightarrow> o1 = ind)
            \<and> (height ind \<le> 17 \<longrightarrow> height o1 \<le> 17)"
    by (rule exI [of _ ?o]) (simp add: m1)
  show ?thesis using p q by (rule conjI)
qed

lemma drop_root_chain: "drop_root (chain (Suc n)) = chain n"
  by simp

lemma toy_mutate_chain:
  "toolbox_mutate toy_lib toy_built (chain n)
     = Inr [if n < 17 then chain (Suc n) else chain n]"
  by (simp add: toolbox_mutate_def toy_built_fields staticLimit_def Let_def toy_lib_def
      grow_leaf_chain height_chain)

lemma toy_mate_chain:
  assumes "m \<le> 17"
  shows "toolbox_mate toy_lib toy_built (chain n) (chain (Suc m))
           = Inr [if n < 17 then chain (Suc n) else chain n, chain m]"
  using assms
  by (simp add: toolbox_mate_def toy_built_fields staticLimit_def Let_def toy_lib_def
      height_chain grow_leaf_chain drop_root_chain enumerate_two del: chain.simps)

theorem guarded_offspring_height_witness:
  "build_model toy_lib X_plain y_plain 3 (reset toy_learner) = (Inr (), toy_built)
   \<and> height (chain 17) \<le> 17 \<and> height (chain (Suc 4)) \<le> 17
   \<and> cxOnePoint toy_lib (chain 17) (chain (Suc 4)) = (chain 18, chain 4)
   \<and> 17 < height (chain 18) \<and> height (chain 4) \<le> 17
   \<and> toolbox_mate toy_lib toy_built (chain 17) (chain (Suc 4)) = Inr [chain 17, chain 4]
   \<and> mutUniform toy_lib (chain 17) = chain 18
   \<and> toolbox_mutate toy_lib toy_built (chain 17) = Inr [chain 17]
   \<and> mutUniform toy_lib (chain 3) = chain 4
   \<and> toolbox_mutate toy_lib toy_built (chain 3) = Inr [chain 4]"
proof -
  have h: "height (chain 17) \<le> 17" "height (chain (Suc 4)) \<le> 17" "17 < height (chain 18)"
    "height (chain 4) \<le> 17"
    by (simp_all add: height_chain del: chain.simps)
  have g: "grow_leaf (chain 17) = chain 18" "grow_leaf (chain 3) = chain 4"
    by (simp_all add: grow_leaf_chain del: chain.simps)
  have c: "cxOnePoint toy_lib (chain 17) (chain (Suc 4)) = (chain 18, chain 4)"
    using drop_root_chain [of 4] by (simp add: toy_lib_def g del: chain.simps)
  have u: "mutUniform toy_lib (chain 17) = chain 18" "mutUniform toy_lib (chain 3) = chain 4"
    by (simp_all add: toy_lib_def g)
  have m: "toolbox_mate toy_lib toy_built (chain 17) (chain (Suc 4)) = Inr [chain 17, chain 4]"
    using toy_mate_chain [of 4 17] by simp
  have t: "toolbox_mutate toy_lib toy_built (chain 17) = Inr [chain 17]"
    "toolbox_mutate toy_lib toy_built (chain 3) = Inr [chain 4]"
    using toy_mutate_chain [of 17] toy_mutate_chain [of 3] by simp_all
  show ?thesis
    using guarded_offspring_height [OF toy_build_succeeds, of "chain 17" "chain (Suc 4)" "chain 17"]
      toy_build_succeeds h c u m t
    by simp
qed

text \<open>
  C4, as stated, fails for a parent that is itself higher than 17: the mutation of the
  chain of height 18 is higher still, and the guard returns the parent, of height 18.
\<close>

theorem guarded_offspring_height_counterexample:
  "build_model toy_lib X_plain y_plain 3 (reset toy_learner) = (Inr (), toy_built)
   \<and> toolbox_mutate toy_lib toy_built (chain 18) = Inr [chain 18]
   \<and> \<not> height (chain 18) \<le> 17"
  by (simp add: toy_build_succeeds toy_mutate_chain height_chain)

section \<open>Results about training\<close>

text \<open>
  Nothing in an evaluation or in the generational loop reads \<open>func\<close> or \<open>stdout\<close>: run
  from a state that differs in these two attributes, each function returns the same
  value and leaves the same state up to these two attributes.
\<close>

lemma eval_helper_sim:
  "\<exists>g'. eval_helper lib (s\<lparr>func := g, stdout := out\<rparr>) ind X y
          = ((fst (fst (eval_helper lib s ind X y)),
              (snd (fst (eval_helper lib s ind X y)))\<lparr>func := g', stdout := out\<rparr>),
             snd (eval_helper lib s ind X y))"
proof (cases "pset s")
  case None
  then show ?thesis by (auto simp: eval_helper_def)
next
  case (Some p)
  show ?thesis
    by (rule exI [of _ "Some (compile lib ind p)"])
      (simp add: eval_helper_def Some Let_def self_view_def split: sum.split prod.split)
qed

lemma toolbox_evaluate_sim:
  "\<exists>g'. toolbox_evaluate lib ind (s\<lparr>func := g, stdout := out\<rparr>)
          = (fst (toolbox_evaluate lib ind s),
             (snd (toolbox_evaluate lib ind s))\<lparr>func := g', stdout := out\<rparr>)"
proof (cases "tb_evaluate (toolbox s)")
  case None
  then show ?thesis by (auto simp: toolbox_evaluate_def)
next
  case (Some ev)
  show ?thesis
  proof (cases ev)
    case (EvalData X y)
    obtain g' where "eval_helper lib (s\<lparr>func := g, stdout := out\<rparr>) ind X y
          = ((fst (fst (eval_helper lib s ind X y)),
              (snd (fst (eval_helper lib s ind X y)))\<lparr>func := g', stdout := out\<rparr>),
             snd (eval_helper lib s ind X y))"
      using eval_helper_sim by blast
    then show ?thesis
      by (intro exI [of _ g']) (simp add: toolbox_evaluate_def Some EvalData split: prod.split)
  next
    case (EvalGen gen)
    obtain X y where xy: "gen None = (X, y)" by (cases "gen None")
    obtain g' where "eval_helper lib (s\<lparr>func := g, stdout := out\<rparr>) ind X y
          = ((fst (fst (eval_helper lib s ind X y)),
              (snd (fst (eval_helper lib s ind X y)))\<lparr>func := g', stdout := out\<rparr>),
             snd (eval_helper lib s ind X y))"
      using eval_helper_sim by blast
    then show ?thesis
      by (intro exI [of _ g']) (simp add: toolbox_evaluate_def Some EvalGen xy)
  qed
qed

lemma evaluate_invalid_sim:
  "\<exists>g'. evaluate_invalid lib pop (s\<lparr>func := g, stdout := out\<rparr>)
          = (fst (evaluate_invalid lib pop s),
             (snd (evaluate_invalid lib pop s))\<lparr>func := g', stdout := out\<rparr>)"
proof (induction pop arbitrary: s g)
  case Nil
  show ?case by auto
next
  case (Cons i pop)
  show ?case
  proof (cases "fitness i")
    case (Some v)
    obtain g' where "evaluate_invalid lib pop (s\<lparr>func := g, stdout := out\<rparr>)
          = (fst (evaluate_invalid lib pop s),
             (snd (evaluate_invalid lib pop s))\<lparr>func := g', stdout := out\<rparr>)"
      using Cons.IH by blast
    then show ?thesis
      by (intro exI [of _ g']) (simp add: Some split: prod.split sum.split)
  next
    case None
    obtain g1 where 1: "toolbox_evaluate lib (tree i) (s\<lparr>func := g, stdout := out\<rparr>)
          = (fst (toolbox_evaluate lib (tree i) s),
             (snd (toolbox_evaluate lib (tree i) s))\<lparr>func := g1, stdout := out\<rparr>)"
      using toolbox_evaluate_sim by blast
    obtain r s1 where rs: "toolbox_evaluate lib (tree i) s = (r, s1)"
      by (cases "toolbox_evaluate lib (tree i) s")
    obtain g' where 2: "evaluate_invalid lib pop (s1\<lparr>func := g1, stdout := out\<rparr>)
          = (fst (evaluate_invalid lib pop s1),
             (snd (evaluate_invalid lib pop s1))\<lparr>func := g', stdout := out\<rparr>)"
      using Cons.IH by blast
    show ?thesis
    proof (cases r)
      case (Inl e)
      then show ?thesis using 1 rs by (intro exI [of _ g1]) (simp add: None)
    next
      case (Inr v)
      then show ?thesis using 1 rs 2
        by (intro exI [of _ g']) (simp add: None split: prod.split sum.split)
    qed
  qed
qed

lemma update_halloffame_sim:
  "update_halloffame pop (s\<lparr>func := g, stdout := out\<rparr>)
     = (update_halloffame pop s)\<lparr>func := g, stdout := out\<rparr>"
  by (simp add: update_halloffame_def)

lemma ea_gens_sim:
  "\<exists>g'. ea_gens lib alg n k pop lg (s\<lparr>func := g, stdout := out\<rparr>)
          = (fst (ea_gens lib alg n k pop lg s),
             (snd (ea_gens lib alg n k pop lg s))\<lparr>func := g', stdout := out\<rparr>)"
proof (induction n arbitrary: k pop lg s g)
  case 0
  show ?case by (intro exI [of _ g]) simp
next
  case (Suc n)
  show ?case
  proof (cases "tb_select (toolbox s)")
    case None
    then show ?thesis by (intro exI [of _ g]) simp
  next
    case (Some ts)
    show ?thesis
    proof (cases "tb_mate (toolbox s) = None \<or> tb_mutate (toolbox s) = None")
      case True
      then show ?thesis using Some by (intro exI [of _ g]) auto
    next
      case False
      then obtain m1 m2 where mm: "tb_mate (toolbox s) = Some m1" "tb_mutate (toolbox s) = Some m2"
        by auto
      let ?off = "breed lib alg (crossover_prob s) (mutation_prob s) ts k pop (offspring_size alg pop)"
      obtain g1 where 1: "evaluate_invalid lib ?off (s\<lparr>func := g, stdout := out\<rparr>)
          = (fst (evaluate_invalid lib ?off s),
             (snd (evaluate_invalid lib ?off s))\<lparr>func := g1, stdout := out\<rparr>)"
        using evaluate_invalid_sim by blast
      obtain r s1 where rs: "evaluate_invalid lib ?off s = (r, s1)"
        by (cases "evaluate_invalid lib ?off s")
      show ?thesis
      proof (cases r)
        case (Inl e)
        then show ?thesis using 1 rs Some mm by (intro exI [of _ g1]) (simp add: Let_def)
      next
        case (Inr ev)
        obtain g' where 2:
          "ea_gens lib alg n (Suc k) (next_population lib alg ts k pop ev)
             (lg @ [(k, nevals ?off)]) ((update_halloffame ev s1)\<lparr>func := g1, stdout := out\<rparr>)
           = (fst (ea_gens lib alg n (Suc k) (next_population lib alg ts k pop ev)
                    (lg @ [(k, nevals ?off)]) (update_halloffame ev s1)),
              (snd (ea_gens lib alg n (Suc k) (next_population lib alg ts k pop ev)
                    (lg @ [(k, nevals ?off)]) (update_halloffame ev s1)))
                \<lparr>func := g', stdout := out\<rparr>)"
          using Suc.IH by blast
        show ?thesis
          using 1 rs Inr Some mm 2
          by (intro exI [of _ g']) (simp add: Let_def update_halloffame_sim)
      qed
    qed
  qed
qed

lemma ea_sim:
  "\<exists>g'. ea lib alg pop0 (s\<lparr>func := g, stdout := out\<rparr>)
          = (fst (ea lib alg pop0 s), (snd (ea lib alg pop0 s))\<lparr>func := g', stdout := out\<rparr>)"
proof -
  obtain g1 where 1: "evaluate_invalid lib pop0 (s\<lparr>func := g, stdout := out\<rparr>)
          = (fst (evaluate_invalid lib pop0 s),
             (snd (evaluate_invalid lib pop0 s))\<lparr>func := g1, stdout := out\<rparr>)"
    using evaluate_invalid_sim by blast
  obtain r s1 where rs: "evaluate_invalid lib pop0 s = (r, s1)"
    by (cases "evaluate_invalid lib pop0 s")
  show ?thesis
  proof (cases r)
    case (Inl e)
    then show ?thesis using 1 rs by (intro exI [of _ g1]) (simp add: ea_def)
  next
    case (Inr pop)
    obtain g' where 2:
      "ea_gens lib alg (ngens s1) 1 pop [(0, nevals pop0)]
         ((update_halloffame pop s1)\<lparr>func := g1, stdout := out\<rparr>)
       = (fst (ea_gens lib alg (ngens s1) 1 pop [(0, nevals pop0)] (update_halloffame pop s1)),
          (snd (ea_gens lib alg (ngens s1) 1 pop [(0, nevals pop0)] (update_halloffame pop s1)))
            \<lparr>func := g', stdout := out\<rparr>)"
      using ea_gens_sim by blast
    show ?thesis
      using 1 rs Inr 2 by (intro exI [of _ g']) (simp add: ea_def update_halloffame_sim)
  qed
qed

text \<open>\<open>train\<close> does not read the hall of fame it finds either.\<close>

lemma train_sim:
  "\<exists>g' out'. train lib (s\<lparr>func := g, stdout := out, hof := h\<rparr>)
          = (fst (train lib s), (snd (train lib s))\<lparr>func := g', stdout := out'\<rparr>)"
proof -
  obtain r pr where ga: "get_algorithm (algorithm s) = (r, pr)"
    by (cases "get_algorithm (algorithm s)")
  let ?s2 = "s\<lparr>hof := Some (HallOfFame 1), stdout := stdout s @ pr\<rparr>"
  have e: "s\<lparr>func := g, hof := Some (HallOfFame 1), stdout := out @ pr\<rparr>
             = ?s2\<lparr>func := g, stdout := out @ pr\<rparr>"
    by simp
  show ?thesis
  proof (cases r)
    case (Inl e)
    then show ?thesis using ga
      by (intro exI [of _ g] exI [of _ "out @ pr"]) (simp add: train_def Let_def)
  next
    case (Inr a)
    show ?thesis
    proof (cases "tb_population (toolbox s)")
      case None
      then show ?thesis using ga Inr
        by (intro exI [of _ g] exI [of _ "out @ pr"]) (simp add: train_def Let_def)
    next
      case (Some ex)
      show ?thesis
      proof (cases a)
        case None
        then show ?thesis using ga Inr Some
          by (intro exI [of _ g] exI [of _ "out @ pr"]) (simp add: train_def Let_def)
      next
        case (Some alg)
        let ?pop0 = "map (\<lambda>t. \<lparr>tree = t, fitness = None\<rparr>) (population lib ex (population_size s))"
        obtain g' where 2:
          "ea lib alg ?pop0 (s\<lparr>func := g, hof := Some (HallOfFame 1), stdout := out @ pr\<rparr>)
          = (fst (ea lib alg ?pop0 ?s2), (snd (ea lib alg ?pop0 ?s2))\<lparr>func := g', stdout := out @ pr\<rparr>)"
          unfolding e using ea_sim by blast
        show ?thesis
          using ga Inr \<open>tb_population (toolbox s) = Some ex\<close> Some 2
          by (intro exI [of _ g'] exI [of _ "out @ pr"]) (simp add: train_def Let_def)
      qed
    qed
  qed
qed

text \<open>
  What \<open>reset\<close> leaves differs from a reset new learner of the same configuration at most
  in \<open>func\<close>, in the printed lines, and in a hall of fame or primitive set that the
  \<open>try\<close> block did not reach.
\<close>

lemma reset_form:
  "\<exists>out h p. reset s = (reset (fresh s))\<lparr>func := func s, stdout := out, hof := h, pset := p\<rparr>"
proof -
  have f: "reset (fresh s) = (fresh s)\<lparr>stdout := [''Already Reset'']\<rparr>"
    by (simp add: reset_def fresh_def init_def set_add_func_def print_def)
  have c: "s\<lparr>toolbox := Toolbox, Fitness := None\<rparr>
             = (fresh s)\<lparr>func := func s, stdout := stdout s, hof := hof s, pset := pset s\<rparr>"
    by (simp add: fresh_def init_def set_add_func_def)
  show ?thesis
  proof (cases "Fitness s")
    case None
    then have "reset s = (s\<lparr>toolbox := Toolbox, Fitness := None\<rparr>)
                 \<lparr>stdout := stdout s @ [''Already Reset'']\<rparr>"
      by (simp add: reset_def print_def)
    then show ?thesis unfolding c f
      by (intro exI [of _ "stdout s @ [''Already Reset'']"] exI [of _ "hof s"] exI [of _ "pset s"])
        simp
  next
    case (Some w)
    show ?thesis
    proof (cases "pset s")
      case None
      then have "reset s = (s\<lparr>toolbox := Toolbox, Fitness := None\<rparr>)
                 \<lparr>stdout := stdout s @ [''Already Reset'']\<rparr>"
        using Some by (simp add: reset_def print_def)
      then show ?thesis unfolding c f
        by (intro exI [of _ "stdout s @ [''Already Reset'']"] exI [of _ "hof s"] exI [of _ "pset s"])
          simp
    next
      case (Some p)
      show ?thesis
      proof (cases "hof s")
        case None
        then have "reset s = (s\<lparr>toolbox := Toolbox, Fitness := None\<rparr>)
                 \<lparr>stdout := stdout s @ [''Already Reset''], pset := None\<rparr>"
          using Some \<open>Fitness s = Some w\<close> by (simp add: reset_def print_def)
        then show ?thesis unfolding c f
          by (intro exI [of _ "stdout s @ [''Already Reset'']"] exI [of _ "hof s"] exI [of _ None])
            simp
      next
        case (Some h)
        then have "reset s = (s\<lparr>toolbox := Toolbox, Fitness := None\<rparr>)
                 \<lparr>pset := None, hof := None\<rparr>"
          using \<open>pset s = Some p\<close> \<open>Fitness s = Some w\<close> by (simp add: reset_def print_def)
        then show ?thesis unfolding c f
          by (intro exI [of _ "stdout s"] exI [of _ None] exI [of _ None]) simp
      qed
    qed
  qed
qed

text \<open>
  The builders overwrite the primitive set before they read it, and neither read nor
  write \<open>func\<close>, \<open>stdout\<close> and \<open>hof\<close>.
\<close>

lemma invariant_build_model_sim:
  "invariant_build_model lib n ts (s\<lparr>func := g, stdout := out, hof := h, pset := p\<rparr>)
     = (fst (invariant_build_model lib n ts s),
        (snd (invariant_build_model lib n ts s))\<lparr>func := g, stdout := out, hof := h\<rparr>)"
  by (simp add: invariant_build_model_def andthen_def create_fitness_def
      create_and_reg_individual_def create_and_reg_population_def reg_selection_def
      reg_mutation_def reg_mating_def Let_def
      split: prod.split option.split sum.split)

lemma build_model_sim:
  "build_model lib X y ts (s\<lparr>func := g, stdout := out, hof := h, pset := p\<rparr>)
     = (fst (build_model lib X y ts s),
        (snd (build_model lib X y ts s))\<lparr>func := g, stdout := out, hof := h\<rparr>)"
  by (simp add: build_model_def andthen_def invariant_build_model_sim reg_eval_def
      split: prod.split sum.split)

lemma build_gen_model_sim:
  "build_gen_model lib gen ts (s\<lparr>func := g, stdout := out, hof := h, pset := p\<rparr>)
     = (fst (build_gen_model lib gen ts s),
        (snd (build_gen_model lib gen ts s))\<lparr>func := g, stdout := out, hof := h\<rparr>)"
  by (simp add: build_gen_model_def andthen_def invariant_build_model_sim reg_gen_eval_def
      split: prod.split sum.split)

text \<open>The common part of \<open>fit\<close> and \<open>fit_gen\<close>: any builder with the property above.\<close>

lemma reset_build_train:
  assumes b: "\<And>t g out h p. build (t\<lparr>func := g, stdout := out, hof := h, pset := p\<rparr>)
                 = (fst (build t), (snd (build t))\<lparr>func := g, stdout := out, hof := h\<rparr>)"
    and run: "\<And>t. run t = (case build (reset t) of
                 (Inl e, s') \<Rightarrow> (Inl e, s') | (Inr (u :: unit), s') \<Rightarrow> train lib s')"
  shows "fst (run s) = fst (run (fresh s))
         \<and> (\<exists>g out h. snd (run s) = (snd (run (fresh s)))\<lparr>func := g, stdout := out, hof := h\<rparr>)
         \<and> (\<forall>r. fst (run s) = Inr r \<longrightarrow>
               (\<exists>g out. snd (run s) = (snd (run (fresh s)))\<lparr>func := g, stdout := out\<rparr>))"
proof -
  obtain out h p where r: "reset s = (reset (fresh s))\<lparr>func := func s, stdout := out, hof := h, pset := p\<rparr>"
    using reset_form by blast
  obtain rb sb where bf: "build (reset (fresh s)) = (rb, sb)"
    by (cases "build (reset (fresh s))")
  have bs: "build (reset s) = (rb, sb\<lparr>func := func s, stdout := out, hof := h\<rparr>)"
    unfolding r b bf by simp
  show ?thesis
  proof (cases rb)
    case (Inl e)
    have 1: "run s = (Inl e, sb\<lparr>func := func s, stdout := out, hof := h\<rparr>)"
      by (simp add: run bs Inl)
    have 2: "run (fresh s) = (Inl e, sb)" by (simp add: run bf Inl)
    show ?thesis unfolding 1 2 by auto
  next
    case (Inr u)
    have 1: "run s = train lib (sb\<lparr>func := func s, stdout := out, hof := h\<rparr>)"
      by (simp add: run bs Inr)
    have 2: "run (fresh s) = train lib sb" by (simp add: run bf Inr)
    obtain g' out' where 3: "train lib (sb\<lparr>func := func s, stdout := out, hof := h\<rparr>)
          = (fst (train lib sb), (snd (train lib sb))\<lparr>func := g', stdout := out'\<rparr>)"
      using train_sim by blast
    have e: "(snd (train lib sb))\<lparr>func := g', stdout := out'\<rparr>
               = (snd (train lib sb))\<lparr>func := g', stdout := out', hof := hof (snd (train lib sb))\<rparr>"
      by simp
    have a: "\<exists>g out. snd (run s) = (snd (run (fresh s)))\<lparr>func := g, stdout := out\<rparr>"
      unfolding 1 2 3 by auto
    have c: "\<exists>g out h. snd (run s) = (snd (run (fresh s)))\<lparr>func := g, stdout := out, hof := h\<rparr>"
      unfolding 1 2 3 using e by (auto simp only: snd_conv)
    have d: "fst (run s) = fst (run (fresh s))" unfolding 1 2 3 by simp
    show ?thesis using a c d by blast
  qed
qed

text \<open>
  \<open>fit\<close> and \<open>fit_gen\<close> from any prior state: they return what they return on a newly
  created learner of the same configuration and, when they return normally, leave the
  same learner up to the printed lines and the handle \<open>func\<close>.  What \<open>reset\<close> leaves
  behind is overwritten by the builders and by \<open>train\<close> before it is read.
\<close>

theorem fit_from_any_state:
  "fst (fit lib X y s) = fst (fit lib X y (fresh s))
   \<and> (\<forall>r. fst (fit lib X y s) = Inr r \<longrightarrow>
         (\<exists>g out. snd (fit lib X y s) = (snd (fit lib X y (fresh s)))\<lparr>func := g, stdout := out\<rparr>))
   \<and> fst (fit_gen lib gen s) = fst (fit_gen lib gen (fresh s))
   \<and> (\<forall>r. fst (fit_gen lib gen s) = Inr r \<longrightarrow>
         (\<exists>g out. snd (fit_gen lib gen s)
                     = (snd (fit_gen lib gen (fresh s)))\<lparr>func := g, stdout := out\<rparr>))"
proof -
  have 1: "fst (fit lib X y s) = fst (fit lib X y (fresh s))
         \<and> (\<exists>g out h. snd (fit lib X y s)
               = (snd (fit lib X y (fresh s)))\<lparr>func := g, stdout := out, hof := h\<rparr>)
         \<and> (\<forall>r. fst (fit lib X y s) = Inr r \<longrightarrow>
               (\<exists>g out. snd (fit lib X y s) = (snd (fit lib X y (fresh s)))\<lparr>func := g, stdout := out\<rparr>))"
    by (rule reset_build_train [where build = "build_model lib X y 3"])
      (simp_all add: build_model_sim fit_def)
  have 2: "fst (fit_gen lib gen s) = fst (fit_gen lib gen (fresh s))
         \<and> (\<exists>g out h. snd (fit_gen lib gen s)
               = (snd (fit_gen lib gen (fresh s)))\<lparr>func := g, stdout := out, hof := h\<rparr>)
         \<and> (\<forall>r. fst (fit_gen lib gen s) = Inr r \<longrightarrow>
               (\<exists>g out. snd (fit_gen lib gen s)
                     = (snd (fit_gen lib gen (fresh s)))\<lparr>func := g, stdout := out\<rparr>))"
    by (rule reset_build_train [where build = "build_gen_model lib gen 3"])
      (simp_all add: build_gen_model_sim fit_gen_def)
  show ?thesis using 1 2 by blast
qed

section \<open>Results about the hall of fame\<close>

lemma better_irrefl: "\<not> better b b"
  by (auto simp: better_def split: option.splits list.splits elim: fit_lt.elims)

lemma better_displaces:
  assumes "better i b" and "\<not> better j b"
  shows "\<not> better j i"
proof
  assume ji: "better j i"
  from assms(1) obtain x y where i: "fitness i = Some [Fin x]" and b: "fitness b = Some [Fin y]"
    and xy: "x < y"
    by (auto simp: better_def split: option.splits list.splits elim!: fit_lt.elims)
  from ji i obtain z where j: "fitness j = Some [Fin z]" and zx: "z < x"
    by (auto simp: better_def split: option.splits list.splits elim!: fit_lt.elims)
  have "better j b" using j b zx xy by (simp add: better_def)
  then show False using assms(2) by simp
qed

lemma hall_insert_maxsize: "maxsize (hall_insert h i) = maxsize h"
  by (simp add: hall_insert_def)

lemma hall_update_maxsize: "maxsize (hall_update h pop) = maxsize h"
  unfolding hall_update_def by (induction pop arbitrary: h) (simp_all add: hall_insert_maxsize)

lemma hall_insert_single:
  assumes "maxsize h = 1" and "items h = [b]"
  shows "items (hall_insert h i) = [if better i b then i else b]"
  using assms by (simp add: hall_insert_def)

lemma hall_insert_empty:
  assumes "maxsize h = 1" and "items h = []"
  shows "items (hall_insert h i) = [i]"
  using assms by (simp add: hall_insert_def)

lemma hall_update_single:
  assumes "maxsize h = 1" and "items h = [b]" and "b \<in> S" and "\<forall>j \<in> S. \<not> better j b"
  shows "\<exists>c. items (hall_update h pop) = [c] \<and> c \<in> S \<union> set pop
              \<and> (\<forall>j \<in> S \<union> set pop. \<not> better j c)"
  using assms
proof (induction pop arbitrary: h b S)
  case Nil
  then show ?case by (simp add: hall_update_def)
next
  case (Cons i pop)
  let ?c = "if better i b then i else b"
  let ?h = "hall_insert h i"
  have m: "maxsize ?h = 1" using Cons.prems(1) by (simp add: hall_insert_maxsize)
  have it: "items ?h = [?c]" using hall_insert_single [OF Cons.prems(1,2)] .
  have mem: "?c \<in> insert i S" using Cons.prems(3) by simp
  have best: "\<forall>j \<in> insert i S. \<not> better j ?c"
  proof (cases "better i b")
    case True
    then show ?thesis using Cons.prems(4) better_displaces [OF True] better_irrefl by auto
  next
    case False
    then show ?thesis using Cons.prems(4) by auto
  qed
  obtain c where "items (hall_update ?h pop) = [c]" and "c \<in> insert i S \<union> set pop"
    and "\<forall>j \<in> insert i S \<union> set pop. \<not> better j c"
    using Cons.IH [OF m it mem best] by blast
  then show ?case by (intro exI [of _ c]) (simp add: hall_update_def)
qed

lemma hall_update_fresh:
  assumes "pop \<noteq> []"
  shows "\<exists>c. items (hall_update (HallOfFame 1) pop) = [c] \<and> c \<in> set pop
              \<and> (\<forall>j \<in> set pop. \<not> better j c)"
proof -
  obtain i rest where p: "pop = i # rest" using assms by (cases pop) auto
  let ?h = "hall_insert (HallOfFame 1) i"
  have m: "maxsize ?h = 1" by (simp add: hall_insert_maxsize HallOfFame_def)
  have it: "items ?h = [i]" by (rule hall_insert_empty) (simp_all add: HallOfFame_def)
  have "\<exists>c. items (hall_update ?h rest) = [c] \<and> c \<in> {i} \<union> set rest
              \<and> (\<forall>j \<in> {i} \<union> set rest. \<not> better j c)"
    by (rule hall_update_single [OF m it]) (simp_all add: better_irrefl)
  then show ?thesis by (simp add: p hall_update_def)
qed

lemma hall_update_append: "hall_update h (xs @ ys) = hall_update (hall_update h xs) ys"
  by (simp add: hall_update_def)

lemma eval_helper_hof: "hof (snd (fst (eval_helper lib s ind X y))) = hof s"
  by (simp add: eval_helper_def Let_def split: option.split sum.split prod.split)

lemma toolbox_evaluate_hof: "hof (snd (toolbox_evaluate lib ind s)) = hof s"
proof (cases "tb_evaluate (toolbox s)")
  case None
  then show ?thesis by (simp add: toolbox_evaluate_def)
next
  case (Some ev)
  show ?thesis
  proof (cases ev)
    case (EvalData X y)
    show ?thesis
      using eval_helper_hof [of lib s ind X y]
      by (auto simp: toolbox_evaluate_def Some EvalData split: prod.split)
  next
    case (EvalGen gen)
    obtain X y where xy: "gen None = (X, y)" by (cases "gen None")
    show ?thesis
      using eval_helper_hof [of lib s ind X y]
      by (simp add: toolbox_evaluate_def Some EvalGen xy)
  qed
qed

lemma evaluate_invalid_hof: "hof (snd (evaluate_invalid lib pop s)) = hof s"
proof (induction pop arbitrary: s)
  case Nil
  show ?case by simp
next
  case (Cons i pop)
  show ?case
  proof (cases "fitness i")
    case (Some v)
    then show ?thesis
      using Cons.IH [of s] by (auto split: prod.split sum.split)
  next
    case None
    obtain r s1 where rs: "toolbox_evaluate lib (tree i) s = (r, s1)"
      by (cases "toolbox_evaluate lib (tree i) s")
    have h1: "hof s1 = hof s" using toolbox_evaluate_hof [of lib "tree i" s] rs by simp
    show ?thesis
      using None rs h1 Cons.IH [of s1] by (auto split: prod.split sum.split)
  qed
qed

lemma map_option_hall_update:
  "map_option (\<lambda>h. hall_update h ys) (map_option (\<lambda>h. hall_update h xs) ho)
     = map_option (\<lambda>h. hall_update h (xs @ ys)) ho"
  by (cases ho) (simp_all add: hall_update_append)

lemma map_option_hall_update_Nil: "map_option (\<lambda>h. hall_update h []) ho = ho"
  by (cases ho) (simp_all add: hall_update_def)

lemma ea_gens_hof:
  "hof (snd (ea_gens lib alg n k pop lg s))
     = map_option (\<lambda>h. hall_update h (gens_seen lib alg n k pop s)) (hof s)"
proof (induction n arbitrary: k pop lg s)
  case 0
  show ?case by (simp add: map_option_hall_update_Nil)
next
  case (Suc n)
  show ?case
  proof (cases "tb_select (toolbox s)")
    case None
    then show ?thesis by (simp add: map_option_hall_update_Nil)
  next
    case (Some ts)
    show ?thesis
    proof (cases "tb_mate (toolbox s) = None \<or> tb_mutate (toolbox s) = None")
      case True
      then show ?thesis using Some by (auto simp: map_option_hall_update_Nil)
    next
      case False
      then obtain m1 m2 where mm: "tb_mate (toolbox s) = Some m1" "tb_mutate (toolbox s) = Some m2"
        by auto
      let ?off = "breed lib alg (crossover_prob s) (mutation_prob s) ts k pop (offspring_size alg pop)"
      obtain r s1 where rs: "evaluate_invalid lib ?off s = (r, s1)"
        by (cases "evaluate_invalid lib ?off s")
      have h1: "hof s1 = hof s" using evaluate_invalid_hof [of lib ?off s] rs by simp
      show ?thesis
      proof (cases r)
        case (Inl e)
        then show ?thesis using Some mm rs h1 by (simp add: Let_def map_option_hall_update_Nil)
      next
        case (Inr ev)
        have "hof (update_halloffame ev s1) = map_option (\<lambda>h. hall_update h ev) (hof s)"
          by (simp add: update_halloffame_def h1)
        then show ?thesis
          using Some mm rs Inr Suc.IH [of "Suc k" "next_population lib alg ts k pop ev"
              "lg @ [(k, nevals ?off)]" "update_halloffame ev s1"]
          by (simp add: Let_def map_option_hall_update)
      qed
    qed
  qed
qed

lemma ea_hof:
  "hof (snd (ea lib alg pop0 s)) = map_option (\<lambda>h. hall_update h (ea_seen lib alg pop0 s)) (hof s)"
proof -
  obtain r s1 where rs: "evaluate_invalid lib pop0 s = (r, s1)"
    by (cases "evaluate_invalid lib pop0 s")
  have h1: "hof s1 = hof s" using evaluate_invalid_hof [of lib pop0 s] rs by simp
  show ?thesis
  proof (cases r)
    case (Inl e)
    then show ?thesis using rs h1 by (simp add: ea_def ea_seen_def map_option_hall_update_Nil)
  next
    case (Inr pop)
    have "hof (update_halloffame pop s1) = map_option (\<lambda>h. hall_update h pop) (hof s)"
      by (simp add: update_halloffame_def h1)
    then show ?thesis
      using rs Inr ea_gens_hof [of lib alg "ngens s1" 1 pop "[(0, nevals pop0)]"
          "update_halloffame pop s1"]
      by (simp add: ea_def ea_seen_def map_option_hall_update)
  qed
qed

lemma train_hof: "hof (snd (train lib s)) = Some (hall_update (HallOfFame 1) (train_seen lib s))"
proof -
  obtain r pr where ga: "get_algorithm (algorithm s) = (r, pr)"
    by (cases "get_algorithm (algorithm s)")
  show ?thesis
  proof (cases r)
    case (Inl e)
    then show ?thesis using ga by (simp add: train_def train_seen_def Let_def hall_update_def)
  next
    case (Inr a)
    show ?thesis
    proof (cases "tb_population (toolbox s)")
      case None
      then show ?thesis using ga Inr
        by (simp add: train_def train_seen_def Let_def hall_update_def split: option.split)
    next
      case (Some ex)
      show ?thesis
      proof (cases a)
        case None
        then show ?thesis using ga Inr Some
          by (simp add: train_def train_seen_def Let_def hall_update_def)
      next
        case (Some alg)
        then show ?thesis using ga Inr \<open>tb_population (toolbox s) = Some ex\<close>
          by (simp add: train_def train_seen_def Let_def ea_hof)
      qed
    qed
  qed
qed

lemma train_forgets_hof: "train lib (s\<lparr>hof := old\<rparr>) = train lib s"
  by (simp add: train_def Let_def)

text \<open>
  C6.  \<open>train\<close> starts from a new hall of fame of capacity 1 whatever hall of fame the
  learner had; after \<open>train\<close> the hall of fame has capacity 1 and holds, of all the
  individuals the run has evaluated and shown to it over the generations, one that none
  of them beats (and nothing when there was none).
\<close>

theorem train_hall_of_fame:
  "train lib (s\<lparr>hof := old\<rparr>) = train lib s
   \<and> (\<exists>h. hof (snd (train lib s)) = Some h \<and> maxsize h = 1
          \<and> h = hall_update (HallOfFame 1) (train_seen lib s)
          \<and> (train_seen lib s = [] \<longrightarrow> items h = [])
          \<and> (train_seen lib s \<noteq> [] \<longrightarrow>
                (\<exists>b. items h = [b] \<and> b \<in> set (train_seen lib s)
                     \<and> (\<forall>j \<in> set (train_seen lib s). \<not> better j b))))"
proof -
  let ?h = "hall_update (HallOfFame 1) (train_seen lib s)"
  have 1: "hof (snd (train lib s)) = Some ?h" by (rule train_hof)
  have 2: "maxsize ?h = 1" by (simp add: hall_update_maxsize HallOfFame_def)
  have 3: "train_seen lib s = [] \<longrightarrow> items ?h = []"
    by (simp add: hall_update_def HallOfFame_def)
  have 4: "train_seen lib s \<noteq> [] \<longrightarrow>
                (\<exists>b. items ?h = [b] \<and> b \<in> set (train_seen lib s)
                     \<and> (\<forall>j \<in> set (train_seen lib s). \<not> better j b))"
    using hall_update_fresh by blast
  show ?thesis using train_forgets_hof 1 2 3 4 by simp
qed

section \<open>A run of the small learner\<close>

lemma toy_ready_fields:
  "pset toy_ready = Some toy_pset"
  "add_func toy_ready = add_func init_default"
  "hof toy_ready = None"
  "algorithm toy_ready = ''simple''"
  "population_size toy_ready = 2"
  "ngens toy_ready = 1"
  "tb_mate (toolbox toy_ready) = Some 17"
  "tb_mutate (toolbox toy_ready) = Some 17"
  "tb_select (toolbox toy_ready) = Some 3"
  "tb_population (toolbox toy_ready) = Some (toy_pset, 1, 2)"
  "tb_evaluate (toolbox toy_ready) = Some (EvalData X_exact y_plain)"
  by (simp_all add: toy_ready_def build_model_def invariant_build_model_def andthen_def
      create_fitness_def create_and_reg_individual_def create_and_reg_population_def
      reg_selection_def reg_mutation_def reg_mating_def reg_eval_def reset_def print_def
      toy_learner_def init_def init_default_def Toolbox_def toy_lib_def toy_pset_def
      get_arity_from_X_def X_exact_def Let_def)

lemma toy_ready_build:
  "build_model toy_lib X_exact y_plain 3 (reset toy_learner) = (Inr (), toy_ready)"
proof -
  have "fst (build_model toy_lib X_exact y_plain 3 (reset toy_learner)) = Inr ()"
    by (simp add: build_model_def invariant_build_model_def andthen_def
      create_fitness_def create_and_reg_individual_def create_and_reg_population_def
      reg_selection_def reg_mutation_def reg_mating_def reg_eval_def reset_def print_def
      toy_learner_def init_def Toolbox_def toy_lib_def Let_def)
  then show ?thesis by (simp add: toy_ready_def prod_eq_iff)
qed

lemma toy_exact_mse:
  "mse (compile toy_lib (Terminal 0) toy_pset) X_exact y_plain = Inr (Fin 0, X_exact)"
proof -
  have w: "wf_frame X_exact" by (simp add: wf_frame_def X_exact_def)
  have nr: "''result'' \<notin> set (columns X_exact)" by (simp add: X_exact_def)
  have c: "compile toy_lib = toy_compile" by (simp add: toy_lib_def)
  show ?thesis
    using get_result_absent [OF w nr, of "toy_compile (Terminal 0) toy_pset" y_plain]
    by (simp add: c mse_def y_plain_def np_mean_def temp_def toy_compile_def toy_pset_def X_exact_def)
qed

lemma toy_evaluate:
  assumes "pset s = Some toy_pset" and "add_func s = add_func init_default"
    and "tb_evaluate (toolbox s) = Some (EvalData X_exact y_plain)"
  shows "toolbox_evaluate toy_lib (Terminal 0) s
           = (Inr [Fin 0], s\<lparr>func := Some (compile toy_lib (Terminal 0) toy_pset)\<rparr>)"
proof -
  have z: "add_func s (self_view (s\<lparr>func := Some (compile toy_lib (Terminal 0) toy_pset)\<rparr>))
             X_exact y_plain = Inr (Fin 0)"
    by (simp add: assms(2) init_default_def default_add_func)
  have t: "(toolbox s)\<lparr>tb_evaluate := Some (EvalData X_exact y_plain)\<rparr> = toolbox s"
    using assms(3) by (metis toolbox.surjective toolbox.update_convs(8))
  show ?thesis
    by (simp add: toolbox_evaluate_def assms(3) eval_helper_value [OF assms(1) toy_exact_mse z] t)
qed

lemma toy_evaluate_two:
  assumes "pset s = Some toy_pset" and "add_func s = add_func init_default"
    and "tb_evaluate (toolbox s) = Some (EvalData X_exact y_plain)"
  shows "evaluate_invalid toy_lib [arg_unscored, arg_unscored] s
           = (Inr [arg_scored, arg_scored], s\<lparr>func := Some (compile toy_lib (Terminal 0) toy_pset)\<rparr>)"
proof -
  let ?s = "s\<lparr>func := Some (compile toy_lib (Terminal 0) toy_pset)\<rparr>"
  have 1: "toolbox_evaluate toy_lib (Terminal 0) s = (Inr [Fin 0], ?s)"
    by (rule toy_evaluate [OF assms])
  have 2: "toolbox_evaluate toy_lib (Terminal 0) ?s = (Inr [Fin 0], ?s)"
    using toy_evaluate [of ?s] assms by simp
  show ?thesis by (simp add: arg_unscored_def arg_scored_def 1 2)
qed

lemma evaluate_valid:
  "\<forall>i \<in> set pop. fitness i \<noteq> None \<Longrightarrow> evaluate_invalid lib pop s = (Inr pop, s)"
  by (induction pop) auto

lemma toy_ea:
  assumes "pset s = Some toy_pset" and "add_func s = add_func init_default"
    and "tb_evaluate (toolbox s) = Some (EvalData X_exact y_plain)"
    and "ngens s = 1" and "tb_select (toolbox s) = Some 3"
    and "tb_mate (toolbox s) = Some 17" and "tb_mutate (toolbox s) = Some 17"
  shows "fst (ea toy_lib EaSimple [arg_unscored, arg_unscored] s)
           = Inr ([arg_scored, arg_scored], [(0, 2), (1, 0)])"
    and "ea_seen toy_lib EaSimple [arg_unscored, arg_unscored] s
           = [arg_scored, arg_scored, arg_scored, arg_scored]"
proof -
  have v: "\<forall>i \<in> set [arg_scored, arg_scored]. fitness i \<noteq> None" by (simp add: arg_scored_def)
  have b: "breed toy_lib = (\<lambda>alg cxpb mutpb tournsize g pop k. take k pop)" by (simp add: toy_lib_def)
  have n0: "nevals [arg_unscored, arg_unscored] = 2" by (simp add: nevals_def arg_unscored_def)
  have n1: "nevals [arg_scored, arg_scored] = 0" by (simp add: nevals_def arg_scored_def)
  note e = toy_evaluate_two [OF assms(1-3)]
  show "fst (ea toy_lib EaSimple [arg_unscored, arg_unscored] s)
           = Inr ([arg_scored, arg_scored], [(0, 2), (1, 0)])"
    using assms(4-7) unfolding ea_def e
    by (simp add: Let_def update_halloffame_def b
        offspring_size_def evaluate_valid [OF v] next_population_def n0 n1
        del: evaluate_invalid.simps)
  show "ea_seen toy_lib EaSimple [arg_unscored, arg_unscored] s
           = [arg_scored, arg_scored, arg_scored, arg_scored]"
    using assms(4-7) unfolding ea_seen_def e
    by (simp add: Let_def update_halloffame_def b
        offspring_size_def evaluate_valid [OF v] next_population_def
        del: evaluate_invalid.simps)
qed

lemma toy_train:
  "fst (train toy_lib toy_ready) = Inr ([arg_scored, arg_scored], [(0, 2), (1, 0)])"
  "train_seen toy_lib toy_ready = [arg_scored, arg_scored, arg_scored, arg_scored]"
proof -
  let ?s2 = "toy_ready\<lparr>hof := Some (HallOfFame 1), stdout := stdout toy_ready @ []\<rparr>"
  have p: "map (\<lambda>t. \<lparr>tree = t, fitness = None\<rparr>)
             (population toy_lib (toy_pset, 1, 2) (population_size toy_ready))
           = [arg_unscored, arg_unscored]"
    by (simp add: toy_lib_def toy_ready_fields numeral_2_eq_2 arg_unscored_def)
  have t: "train toy_lib toy_ready = ea toy_lib EaSimple [arg_unscored, arg_unscored] ?s2"
    using p by (simp add: train_def Let_def toy_ready_fields get_algorithm_known)
  have ts: "train_seen toy_lib toy_ready = ea_seen toy_lib EaSimple [arg_unscored, arg_unscored] ?s2"
    using p by (simp add: train_seen_def toy_ready_fields get_algorithm_known)
  show "fst (train toy_lib toy_ready) = Inr ([arg_scored, arg_scored], [(0, 2), (1, 0)])"
    unfolding t by (rule toy_ea(1)) (simp_all add: toy_ready_fields)
  show "train_seen toy_lib toy_ready = [arg_scored, arg_scored, arg_scored, arg_scored]"
    unfolding ts by (rule toy_ea(2)) (simp_all add: toy_ready_fields)
qed

theorem train_hall_of_fame_witness:
  "train toy_lib (toy_ready\<lparr>hof := Some \<lparr>maxsize = 5, items = [arg_unscored]\<rparr>\<rparr>)
     = train toy_lib toy_ready
   \<and> fst (train toy_lib toy_ready) = Inr ([arg_scored, arg_scored], [(0, 2), (1, 0)])
   \<and> train_seen toy_lib toy_ready \<noteq> []
   \<and> arg_scored \<in> set (train_seen toy_lib toy_ready)
   \<and> \<not> better arg_scored arg_scored
   \<and> hof (snd (train toy_lib toy_ready)) = Some \<lparr>maxsize = 1, items = [arg_scored]\<rparr>"
proof -
  obtain h where h: "hof (snd (train toy_lib toy_ready)) = Some h" and m: "maxsize h = 1"
    and b: "\<exists>b. items h = [b] \<and> b \<in> set (train_seen toy_lib toy_ready)
                 \<and> (\<forall>j \<in> set (train_seen toy_lib toy_ready). \<not> better j b)"
    and f: "train toy_lib (toy_ready\<lparr>hof := Some \<lparr>maxsize = 5, items = [arg_unscored]\<rparr>\<rparr>)
              = train toy_lib toy_ready"
    using train_hall_of_fame [where lib = toy_lib and s = toy_ready
        and old = "Some \<lparr>maxsize = 5, items = [arg_unscored]\<rparr>"]
    by (auto simp: toy_train(2))
  have i: "items h = [arg_scored]" using b by (auto simp: toy_train(2))
  have e: "h = \<lparr>maxsize = 1, items = [arg_scored]\<rparr>" using m i by simp
  show ?thesis
    using f h e by (simp add: toy_train better_irrefl)
qed

lemma fresh_toy_with_model: "fresh toy_with_model = toy_learner"
  by (simp add: fresh_def toy_with_model_def toy_built_def build_model_def
      invariant_build_model_def andthen_def
      create_fitness_def create_and_reg_individual_def create_and_reg_population_def
      reg_selection_def reg_mutation_def reg_mating_def reg_eval_def reset_def print_def
      toy_learner_def init_def set_add_func_def Toolbox_def toy_lib_def Let_def)

theorem fit_from_any_state_example:
  "hof toy_with_model = Some \<lparr>maxsize = 1, items = [arg_scored]\<rparr>
   \<and> fresh toy_with_model = toy_learner
   \<and> fst (fit toy_lib X_exact y_plain toy_learner) = Inr ([arg_scored, arg_scored], [(0, 2), (1, 0)])
   \<and> fst (fit toy_lib X_exact y_plain toy_with_model)
       = Inr ([arg_scored, arg_scored], [(0, 2), (1, 0)])
   \<and> (\<exists>g out. snd (fit toy_lib X_exact y_plain toy_with_model)
         = (snd (fit toy_lib X_exact y_plain toy_learner))\<lparr>func := g, stdout := out\<rparr>)"
proof -
  have h: "hof toy_with_model = Some \<lparr>maxsize = 1, items = [arg_scored]\<rparr>"
    by (simp add: toy_with_model_def)
  have f: "fst (fit toy_lib X_exact y_plain toy_learner)
             = Inr ([arg_scored, arg_scored], [(0, 2), (1, 0)])"
    by (simp add: fit_def toy_ready_build toy_train(1))
  note t = fit_from_any_state [where lib = toy_lib and X = X_exact and y = y_plain
      and s = toy_with_model, unfolded fresh_toy_with_model]
  have a: "fst (fit toy_lib X_exact y_plain toy_with_model)
             = fst (fit toy_lib X_exact y_plain toy_learner)"
    using t by blast
  have b: "\<forall>r. fst (fit toy_lib X_exact y_plain toy_with_model) = Inr r \<longrightarrow>
         (\<exists>g out. snd (fit toy_lib X_exact y_plain toy_with_model)
            = (snd (fit toy_lib X_exact y_plain toy_learner))\<lparr>func := g, stdout := out\<rparr>)"
    using t by blast
  have c: "\<exists>g out. snd (fit toy_lib X_exact y_plain toy_with_model)
            = (snd (fit toy_lib X_exact y_plain toy_learner))\<lparr>func := g, stdout := out\<rparr>"
    using a b f by simp
  show ?thesis using h fresh_toy_with_model f a c by simp
qed

lemma reset_always: "toolbox (reset s) = Toolbox \<and> Fitness (reset s) = None"
  by (simp add: reset_def print_def Let_def split: option.split)

lemma reset_exact:
  assumes "Fitness s = Some w" and "pset s = Some p"
  shows "pset (reset s) = None \<and> hof (reset s) = None"
  using assms by (simp add: reset_def print_def Let_def split: option.split)

text \<open>
  C7.  What the \<open>reset\<close> that \<open>fit\<close> and \<open>fit_gen\<close> force really discards: always the
  toolbox registrations and the fitness class, and on a learner that has a fitness
  class and a primitive set also the primitive set and the hall of fame; but on a
  learner without a fitness class the \<open>try\<close> block ends at its first \<open>del\<close>, and the
  primitive set and the hall of fame stay, and on a learner without a primitive set the
  hall of fame stays.
\<close>

theorem reset_skips_deletions:
  "toolbox (reset s) = Toolbox \<and> Fitness (reset s) = None
   \<and> (Fitness s \<noteq> None \<longrightarrow> pset (reset s) = None)
   \<and> (Fitness s \<noteq> None \<longrightarrow> pset s \<noteq> None \<longrightarrow> hof (reset s) = None)
   \<and> (Fitness s = None \<longrightarrow> pset (reset s) = pset s \<and> hof (reset s) = hof s)
   \<and> (pset s = None \<longrightarrow> hof (reset s) = hof s)"
  by (auto simp: reset_def print_def Let_def split: option.split)

theorem reset_skips_deletions_witness:
  "fst (train toy_lib toy_learner) = Inl AttributeError
   \<and> Fitness (snd (train toy_lib toy_learner)) = None
   \<and> hof (snd (train toy_lib toy_learner)) = Some (HallOfFame 1)
   \<and> hof (reset (snd (train toy_lib toy_learner))) = Some (HallOfFame 1)
   \<and> Fitness toy_with_model \<noteq> None \<and> pset toy_with_model \<noteq> None
   \<and> hof toy_with_model \<noteq> None
   \<and> pset (reset toy_with_model) = None \<and> hof (reset toy_with_model) = None"
proof -
  have t: "fst (train toy_lib toy_learner) = Inl AttributeError"
    "Fitness (snd (train toy_lib toy_learner)) = None"
    "hof (snd (train toy_lib toy_learner)) = Some (HallOfFame 1)"
    by (simp_all add: train_def Let_def toy_learner_def init_def get_algorithm_known Toolbox_def)
  have m: "Fitness toy_with_model \<noteq> None" "pset toy_with_model \<noteq> None"
    "hof toy_with_model \<noteq> None"
    by (simp_all add: toy_with_model_def toy_built_fields)
  show ?thesis
    using reset_skips_deletions [of "snd (train toy_lib toy_learner)"]
      reset_skips_deletions [of toy_with_model] t m
    by simp
qed

end
